theory Spec2Isabelle
  imports Complex_Main
begin

section \<open>Strings and the phone pattern\<close>

text \<open>
  A Python \<^verbatim>\<open>str\<close> is a sequence of Unicode code points, so a string is a list of
  natural numbers here and \<open>str\<close> embeds an ASCII literal. Code point 43 is \<^verbatim>\<open>+\<close>,
  48 to 57 are \<^verbatim>\<open>0\<close> to \<^verbatim>\<open>9\<close>, and 10 is the line feed.
\<close>

type_synonym pystr = "nat list"

definition str :: "string \<Rightarrow> pystr" where
  "str cs = map of_char cs"

text \<open>
  For a \<^verbatim>\<open>str\<close> pattern the class \<^verbatim>\<open>\d\<close> of Python's \<^verbatim>\<open>re\<close> is the Unicode
  category Nd (decimal digit), which is larger than \<^verbatim>\<open>[0-9]\<close>. Every run of Nd code
  points is made of blocks of ten that start at a digit zero; the table lists those zeros
  (Unicode Character Database 14.0, the one of CPython 3.11).
\<close>

definition unicode_Nd_zeros :: "nat list" where
  "unicode_Nd_zeros =
    [48, 1632, 1776, 1984, 2406, 2534, 2662, 2790,
     2918, 3046, 3174, 3302, 3430, 3558, 3664, 3792,
     3872, 4160, 4240, 6112, 6160, 6470, 6608, 6784,
     6800, 6992, 7088, 7232, 7248, 42528, 43216, 43264,
     43472, 43504, 43600, 44016, 65296, 66720, 68912, 69734,
     69872, 69942, 70096, 70384, 70736, 70864, 71248, 71360,
     71472, 71904, 72016, 72784, 73040, 73120, 92768, 92864,
     93008, 120782, 120792, 120802, 120812, 120822, 123200, 123632,
     125264, 130032]"

definition is_decimal :: "nat \<Rightarrow> bool" where
  "is_decimal c = list_ex (\<lambda>z. z \<le> c \<and> c < z + 10) unicode_Nd_zeros"

text \<open>
  The pattern \<^verbatim>\<open>^\+?[1-9]\d{1,14}$\<close> of \<^verbatim>\<open>is_valid_phone\<close>, as the sequence of
  operations \<^verbatim>\<open>re.compile\<close> produces. A matcher state is the position reached and the
  rest of the subject; an operation maps a state to the list of states it can continue
  from, in the order the backtracking matcher tries them. Without the MULTILINE flag
  \<^verbatim>\<open>^\<close> holds only at position 0, and \<^verbatim>\<open>$\<close> holds at the end of the subject and also
  just before a line feed that is its last character.
\<close>

datatype charset = LITERAL nat | RANGE nat nat | CATEGORY_DIGIT

datatype op = AT_BEGINNING | AT_END | IN charset | MAX_REPEAT nat nat charset

fun in_charset :: "charset \<Rightarrow> nat \<Rightarrow> bool" where
  "in_charset (LITERAL a) c = (c = a)"
| "in_charset (RANGE lo hi) c = (lo \<le> c \<and> c \<le> hi)"
| "in_charset CATEGORY_DIGIT c = is_decimal c"

fun max_repeat :: "charset \<Rightarrow> nat \<Rightarrow> nat \<Rightarrow> nat \<times> pystr \<Rightarrow> (nat \<times> pystr) list" where
  "max_repeat cs lo 0 st = (if lo = 0 then [st] else [])"
| "max_repeat cs lo (Suc hi) (i, s) =
     (case s of
        [] \<Rightarrow> []
      | c # s' \<Rightarrow> if in_charset cs c then max_repeat cs (lo - 1) hi (Suc i, s') else [])
     @ (if lo = 0 then [(i, s)] else [])"

fun exec_op :: "op \<Rightarrow> nat \<times> pystr \<Rightarrow> (nat \<times> pystr) list" where
  "exec_op AT_BEGINNING (i, s) = (if i = 0 then [(i, s)] else [])"
| "exec_op AT_END (i, s) = (if s = [] \<or> s = [10] then [(i, s)] else [])"
| "exec_op (IN cs) (i, s) =
     (case s of [] \<Rightarrow> [] | c # s' \<Rightarrow> if in_charset cs c then [(Suc i, s')] else [])"
| "exec_op (MAX_REPEAT lo hi cs) st = max_repeat cs lo hi st"

fun exec :: "op list \<Rightarrow> nat \<times> pystr \<Rightarrow> (nat \<times> pystr) list" where
  "exec [] st = [st]"
| "exec (p # ps) st = concat (map (exec ps) (exec_op p st))"

text \<open>\<^verbatim>\<open>bool(pattern.match(s))\<close>: some way through the pattern exists from position 0.\<close>

definition re_match :: "op list \<Rightarrow> pystr \<Rightarrow> bool" where
  "re_match p s = (exec p (0, s) \<noteq> [])"

definition phone_pattern :: "op list" where
  "phone_pattern =
     [AT_BEGINNING, MAX_REPEAT 0 1 (LITERAL 43), IN (RANGE 49 57),
      MAX_REPEAT 1 14 CATEGORY_DIGIT, AT_END]"

definition is_valid_phone :: "pystr \<Rightarrow> bool" where
  "is_valid_phone phone = re_match phone_pattern phone"

text \<open>
  The reading the specification gives of the pattern, in its own words: an optional
  leading \<^verbatim>\<open>+\<close>, then between 2 and 15 digits of which the first is 1 to 9, and
  nothing else.
\<close>

definition spec_validatePhone :: "pystr \<Rightarrow> bool" where
  "spec_validatePhone s =
     (let ds = (case s of [] \<Rightarrow> [] | c # t \<Rightarrow> if c = 43 then t else s)
      in 2 \<le> length ds \<and> length ds \<le> 15 \<and>
         (case ds of [] \<Rightarrow> False | d # _ \<Rightarrow> 49 \<le> d \<and> d \<le> 57) \<and>
         list_all (\<lambda>c. 48 \<le> c \<and> c \<le> 57) ds)"

section \<open>Keys from ID strings\<close>

text \<open>
  A \<^verbatim>\<open>graphene.ID\<close> argument reaches the mutation as a \<^verbatim>\<open>str\<close>. A lookup on the
  primary key converts it with Python's \<^verbatim>\<open>int\<close> (the field's
  \<^verbatim>\<open>get_prep_value\<close>), and a string \<^verbatim>\<open>int\<close> refuses raises
  \<^verbatim>\<open>ValueError\<close>. \<open>py_int\<close> is \<^verbatim>\<open>int(s)\<close> for a string, \<open>None\<close> standing for
  \<^verbatim>\<open>ValueError\<close>: white space around the literal is skipped (the ASCII white space
  9 to 13 and 32, and the Unicode white space beyond ASCII), one sign may follow, then
  come decimal digits of any script, single underscores allowed between digits, and at
  most 4300 digits (the default limit of CPython 3.11). \<open>unicode_space\<close> is
  \<^verbatim>\<open>str.isspace\<close> for one character, which is also what \<^verbatim>\<open>str.strip\<close> removes.
\<close>

definition unicode_space :: "nat \<Rightarrow> bool" where
  "unicode_space c =
     (9 \<le> c \<and> c \<le> 13 \<or> 28 \<le> c \<and> c \<le> 32 \<or> c = 133 \<or> c = 160 \<or> c = 5760 \<or>
      8192 \<le> c \<and> c \<le> 8202 \<or> c = 8232 \<or> c = 8233 \<or> c = 8239 \<or> c = 8287 \<or> c = 12288)"

definition int_space :: "nat \<Rightarrow> bool" where
  "int_space c = (if c < 127 then 9 \<le> c \<and> c \<le> 13 \<or> c = 32 else unicode_space c)"

definition decimal_value :: "nat \<Rightarrow> nat option" where
  "decimal_value c =
     map_option (\<lambda>z. c - z) (find (\<lambda>z. z \<le> c \<and> c < z + 10) unicode_Nd_zeros)"

fun no_double_underscore :: "pystr \<Rightarrow> bool" where
  "no_double_underscore (a # b # s) = ((a \<noteq> 95 \<or> b \<noteq> 95) \<and> no_double_underscore (b # s))"
| "no_double_underscore s = True"

definition py_int :: "pystr \<Rightarrow> int option" where
  "py_int s =
     (let s1 = dropWhile int_space s;
          negative = (case s1 of [] \<Rightarrow> False | c # _ \<Rightarrow> c = 45);
          s2 = (case s1 of [] \<Rightarrow> [] | c # t \<Rightarrow> if c = 43 \<or> c = 45 then t else s1);
          body = takeWhile (\<lambda>c. decimal_value c \<noteq> None \<or> c = 95) s2;
          rest = dropWhile (\<lambda>c. decimal_value c \<noteq> None \<or> c = 95) s2;
          digits = List.map_filter decimal_value body
      in if (case body of [] \<Rightarrow> False | c # _ \<Rightarrow> c \<noteq> 95 \<and> last body \<noteq> 95) \<and>
            no_double_underscore body \<and> length digits \<le> 4300 \<and> list_all int_space rest
         then Some ((if negative then - 1 else 1) *
                    int (foldl (\<lambda>acc d. 10 * acc + d) 0 digits))
         else None)"

definition py_strip :: "pystr \<Rightarrow> pystr" where
  "py_strip s = rev (dropWhile unicode_space (rev (dropWhile unicode_space s)))"

text \<open>
  The database is SQLite, Django's default (the settings are not among the sources): its
  integers are 64-bit, and a key outside that range cannot be bound to a query
  (\<^verbatim>\<open>OverflowError\<close>). \<open>id_key\<close> is the conversion of one element of an
  \<^verbatim>\<open>id__in\<close> list, where a null stays a null, and \<open>requested_keys\<close> are the keys the
  list denotes, the nulls dropped as the \<^verbatim>\<open>in\<close> lookup drops them.
\<close>

definition key_in_range :: "int \<Rightarrow> bool" where
  "key_in_range k = (- (2 ^ 63) \<le> k \<and> k < 2 ^ 63)"

definition id_key :: "pystr option \<Rightarrow> int option" where
  "id_key i = (case i of None \<Rightarrow> None | Some v \<Rightarrow> py_int v)"

definition requested_keys :: "pystr option list \<Rightarrow> int list" where
  "requested_keys ids = List.map_filter id_key ids"

section \<open>The store\<close>

text \<open>
  Modelled from the spec: \<^verbatim>\<open>crm/models.py\<close> and the database behind it are not among the
  sources. The three tables hold the fields the mutations and filters under
  \<^verbatim>\<open>src/crm\<close> read and write, with the types of the specification's data model.
  Primary keys are integers assigned by the storage layer on insertion, a decimal is an
  exact rational, a timestamp is a natural number, and an insertion has no failure
  outcome (the specification's repository interface gives it none). An order's
  many-to-many relation \<^verbatim>\<open>product\<close> is the list of the associated products' keys.
\<close>

record customer =
  customer_id :: int
  customer_name :: pystr
  customer_email :: pystr
  customer_phone :: "pystr option"
  customer_created_at :: nat

record product =
  product_id :: int
  product_name :: pystr
  product_price :: rat
  product_stock :: int

record order =
  order_id :: int
  order_customer :: int
  order_total_amount :: rat
  order_order_date :: nat
  order_product :: "int list"

record store =
  customers :: "customer list"
  products :: "product list"
  orders :: "order list"

definition empty_store :: store where
  "empty_store = \<lparr>customers = [], products = [], orders = []\<rparr>"

definition next_id :: "int list \<Rightarrow> int" where
  "next_id ids = fold max ids 0 + 1"

text \<open>Primary keys identify rows: every table the storage layer maintains satisfies this.\<close>

definition wf_store :: "store \<Rightarrow> bool" where
  "wf_store s =
     (distinct (map customer_id (customers s)) \<and>
      distinct (map product_id (products s)) \<and>
      distinct (map order_id (orders s)))"

text \<open>\<^verbatim>\<open>Model.objects.get\<close> on the rows a lookup selects.\<close>

datatype 'a get_result = Found 'a | DoesNotExist | MultipleObjectsReturned

fun objects_get :: "'a list \<Rightarrow> 'a get_result" where
  "objects_get [] = DoesNotExist"
| "objects_get [x] = Found x"
| "objects_get (x # y # zs) = MultipleObjectsReturned"

text \<open>
  \<^verbatim>\<open>Customer(...).save()\<close>, \<^verbatim>\<open>Product(...).save()\<close> and
  \<^verbatim>\<open>Order(...).save()\<close> followed by \<^verbatim>\<open>order.product.set(products)\<close>: a row
  with a fresh key is appended. \<open>now\<close> is the clock reading of the request.
\<close>

definition save_customer :: "nat \<Rightarrow> store \<Rightarrow> pystr \<Rightarrow> pystr \<Rightarrow> pystr option \<Rightarrow> store \<times> customer" where
  "save_customer now s name email phone =
     (let c = \<lparr>customer_id = next_id (map customer_id (customers s)), customer_name = name,
               customer_email = email, customer_phone = phone, customer_created_at = now\<rparr>
      in (s\<lparr>customers := customers s @ [c]\<rparr>, c))"

definition save_product :: "store \<Rightarrow> pystr \<Rightarrow> rat \<Rightarrow> int \<Rightarrow> store \<times> product" where
  "save_product s name price stock =
     (let p = \<lparr>product_id = next_id (map product_id (products s)), product_name = name,
               product_price = price, product_stock = stock\<rparr>
      in (s\<lparr>products := products s @ [p]\<rparr>, p))"

definition save_order :: "store \<Rightarrow> customer \<Rightarrow> rat \<Rightarrow> nat \<Rightarrow> product list \<Rightarrow> store \<times> order" where
  "save_order s c total_amount order_date ps =
     (let ord = \<lparr>order_id = next_id (map order_id (orders s)), order_customer = customer_id c,
                 order_total_amount = total_amount, order_order_date = order_date,
                 order_product = map product_id ps\<rparr>
      in (s\<lparr>orders := orders s @ [ord]\<rparr>, ord))"

section \<open>The mutations of \<^verbatim>\<open>crm/schema.py\<close>\<close>

text \<open>
  Line 9 of the file, \<^verbatim>\<open>from .t\<close>, is an unfinished import statement; the
  functions are embedded as they are written.
  Every error the mutations raise themselves is a \<^verbatim>\<open>GraphQLError\<close> with a message.
  The specification's error kinds name these messages: \<^verbatim>\<open>ValidationError\<close> for the
  phone format, the price and stock bounds, the empty product list and the product count
  mismatch; \<^verbatim>\<open>ConflictError\<close> for an email or phone that exists; \<^verbatim>\<open>NotFoundError\<close>
  for an unknown customer and for no matching product.
  The lookups of \<^verbatim>\<open>CreateOrder\<close> can also raise \<^verbatim>\<open>MultipleObjectsReturned\<close>,
  \<^verbatim>\<open>ValueError\<close> and \<^verbatim>\<open>OverflowError\<close>, none of which it catches.
\<close>

datatype error =
    GraphQLError pystr
  | Uncaught_MultipleObjectsReturned
  | Uncaught_ValueError
  | Uncaught_OverflowError

record CreateCustomerInput =
  in_name :: pystr
  in_email :: pystr
  in_phone :: "pystr option"

record CreateProductInput =
  in_product_name :: pystr
  in_price :: rat
  in_stock :: "int option"

text \<open>
  \<^verbatim>\<open>customer_id\<close> is a required ID, \<^verbatim>\<open>product_ids\<close> a required list whose
  elements may be null, and \<^verbatim>\<open>order_date\<close> is optional.
\<close>

record CreateOrderInput =
  in_customer_id :: pystr
  in_product_ids :: "pystr option list"
  in_order_date :: "nat option"

text \<open>
  The data model's invariant on phones: the phones that are present are pairwise
  distinct.
\<close>

definition phones_unique :: "store \<Rightarrow> bool" where
  "phones_unique s = distinct (List.map_filter customer_phone (customers s))"

definition email_exists :: "store \<Rightarrow> pystr \<Rightarrow> bool" where
  "email_exists s email = list_ex (\<lambda>c. customer_email c = email) (customers s)"

definition phone_exists :: "store \<Rightarrow> pystr \<Rightarrow> bool" where
  "phone_exists s phone = list_ex (\<lambda>c. customer_phone c = Some phone) (customers s)"

text \<open>\<^verbatim>\<open>CreateCustomer.mutate\<close>. \<^verbatim>\<open>not input.phone\<close> holds for an absent and for an empty phone.\<close>

definition create_customer ::
  "nat \<Rightarrow> store \<Rightarrow> CreateCustomerInput \<Rightarrow> error + (store \<times> customer \<times> pystr)" where
  "create_customer now s inp =
     (case in_phone inp of
        None \<Rightarrow> Inl (GraphQLError (str ''Invalid phone number format.''))
      | Some phone \<Rightarrow>
          if phone = [] \<or> \<not> is_valid_phone phone
          then Inl (GraphQLError (str ''Invalid phone number format.''))
          else if email_exists s (in_email inp)
          then Inl (GraphQLError (str ''A customer with this email already exists.''))
          else if phone_exists s phone
          then Inl (GraphQLError (str ''A customer with this phone number already exists.''))
          else (case save_customer now s (in_name inp) (in_email inp) (Some phone) of
                  (s', c) \<Rightarrow> Inr (s', c, str ''Customer created successfully.'')))"

text \<open>
  \<^verbatim>\<open>BulkCreateCustomers.mutate\<close>. \<open>bulk_item\<close> is the body of the \<^verbatim>\<open>try\<close>
  block for one item: \<open>Inl\<close> carries \<^verbatim>\<open>str(e)\<close> of the \<^verbatim>\<open>GraphQLError\<close> raised,
  \<open>Inr\<close> the store after \<^verbatim>\<open>customer.save()\<close> and the saved customer. \<open>bulk_loop\<close> is
  the \<^verbatim>\<open>for\<close> loop over the store and the two result lists.
\<close>

definition bulk_item :: "nat \<Rightarrow> store \<Rightarrow> CreateCustomerInput \<Rightarrow> pystr + (store \<times> customer)" where
  "bulk_item now s item =
     (let name = in_name item; email = in_email item; phone = in_phone item in
      if name = [] \<or> email = []
      then Inl (str ''Name and email are required fields.'')
      else if (case phone of None \<Rightarrow> False | Some ph \<Rightarrow> ph \<noteq> [] \<and> \<not> is_valid_phone ph)
      then Inl (str ''Invalid phone number format. '' @ (case phone of None \<Rightarrow> [] | Some ph \<Rightarrow> ph))
      else if email_exists s email
      then Inl (str ''A customer with email '' @ email @ str '' already exists.'')
      else Inr (save_customer now s name email phone))"

fun bulk_loop ::
  "nat \<Rightarrow> CreateCustomerInput list \<Rightarrow> store \<times> customer list \<times> pystr list \<Rightarrow>
   store \<times> customer list \<times> pystr list" where
  "bulk_loop now [] st = st"
| "bulk_loop now (item # items) (s, created_customers, errors) =
     (case bulk_item now s item of
        Inl e \<Rightarrow> bulk_loop now items (s, created_customers, errors @ [e])
      | Inr (s', c) \<Rightarrow> bulk_loop now items (s', created_customers @ [c], errors))"

definition bulk_create_customers ::
  "nat \<Rightarrow> store \<Rightarrow> CreateCustomerInput list \<Rightarrow> store \<times> customer list \<times> pystr list" where
  "bulk_create_customers now s input = bulk_loop now input (s, [], [])"

text \<open>\<^verbatim>\<open>CreateProduct.mutate\<close>; \<^verbatim>\<open>input.stock or 0\<close> is 0 for an absent stock.\<close>

definition create_product ::
  "store \<Rightarrow> CreateProductInput \<Rightarrow> error + (store \<times> product \<times> pystr)" where
  "create_product s inp =
     (let name = in_product_name inp; price = in_price inp;
          stock = (case in_stock inp of None \<Rightarrow> 0 | Some n \<Rightarrow> n) in
      if price \<le> 0 then Inl (GraphQLError (str ''Price must be greater than zero.''))
      else if stock < 0 then Inl (GraphQLError (str ''Stock cannot be negative.''))
      else (case save_product s name price stock of
              (s', p) \<Rightarrow> Inr (s', p, str ''Product created successfully.'')))"

text \<open>
  The two lookups of \<^verbatim>\<open>CreateOrder.mutate\<close>.
  \<^verbatim>\<open>Customer.objects.get(id=customer_id)\<close> converts the ID, raising
  \<^verbatim>\<open>ValueError\<close> when \<^verbatim>\<open>int\<close> refuses it. For a key outside the 64-bit range the
  exact lookup raises \<^verbatim>\<open>OverflowError\<close> in the Django versions that bind it to the
  query, and selects no row in those that check the range first; which of the two
  happens is the parameter \<open>exact_overflow_raises\<close>.
  \<^verbatim>\<open>Product.objects.filter(id__in=product_ids)\<close> converts every element that is not
  null, raising \<^verbatim>\<open>ValueError\<close> at the first one \<^verbatim>\<open>int\<close> refuses; when the query
  runs, a key outside the 64-bit range raises \<^verbatim>\<open>OverflowError\<close>; otherwise it
  selects the rows whose key is among the requested ones, each row once.
\<close>

definition get_customer :: "bool \<Rightarrow> store \<Rightarrow> pystr \<Rightarrow> error + customer get_result" where
  "get_customer exact_overflow_raises s cid =
     (case py_int cid of
        None \<Rightarrow> Inl Uncaught_ValueError
      | Some k \<Rightarrow>
          if key_in_range k
          then Inr (objects_get (filter (\<lambda>c. customer_id c = k) (customers s)))
          else if exact_overflow_raises then Inl Uncaught_OverflowError
          else Inr DoesNotExist)"

definition filter_products_in :: "store \<Rightarrow> pystr option list \<Rightarrow> error + product list" where
  "filter_products_in s product_ids =
     (if list_ex (\<lambda>i. i \<noteq> None \<and> id_key i = None) product_ids then Inl Uncaught_ValueError
      else if list_all key_in_range (requested_keys product_ids)
      then Inr (filter (\<lambda>p. product_id p \<in> set (requested_keys product_ids)) (products s))
      else Inl Uncaught_OverflowError)"

text \<open>
  \<^verbatim>\<open>CreateOrder.mutate\<close>. \<^verbatim>\<open>sum\<close> adds the prices from the left, starting at 0;
  a supplied \<^verbatim>\<open>order_date\<close> is a datetime and so never falsy.
\<close>

definition create_order ::
  "bool \<Rightarrow> nat \<Rightarrow> store \<Rightarrow> CreateOrderInput \<Rightarrow> error + (store \<times> order)" where
  "create_order exact_overflow_raises now s inp =
     (let cid = in_customer_id inp; product_ids = in_product_ids inp;
          order_date = in_order_date inp in
      if product_ids = []
      then Inl (GraphQLError (str ''At least one product ID must be provided.''))
      else
        (case get_customer exact_overflow_raises s cid of
           Inl e \<Rightarrow> Inl e
         | Inr DoesNotExist \<Rightarrow> Inl (GraphQLError (str ''Invalid customer ID.''))
         | Inr MultipleObjectsReturned \<Rightarrow> Inl Uncaught_MultipleObjectsReturned
         | Inr (Found c) \<Rightarrow>
             (case filter_products_in s product_ids of
                Inl e \<Rightarrow> Inl e
              | Inr ps \<Rightarrow>
                  if ps = []
                  then Inl (GraphQLError (str ''No products found with the provided IDs.''))
                  else if length ps \<noteq> length product_ids
                  then Inl (GraphQLError (str ''Some product IDs are invalid or do not exist.''))
                  else
                    (let total_amount = foldl (+) 0 (map product_price ps)
                     in Inr (save_order s c total_amount
                               (case order_date of None \<Rightarrow> now | Some d \<Rightarrow> d) ps)))))"

text \<open>\<^verbatim>\<open>OrderType.resolve_total_amount\<close> returns the stored field.\<close>

definition resolve_total_amount :: "order \<Rightarrow> rat" where
  "resolve_total_amount ord = order_total_amount ord"

section \<open>The filters of \<^verbatim>\<open>crm/filters.py\<close>\<close>

text \<open>
  A filter set applies its filters one after the other to the queryset, here the list of
  rows. A declared filter whose value is empty is skipped before it runs: an absent
  value, and for a \<^verbatim>\<open>CharFilter\<close>, whose form field strips white space from the
  value, also a blank string. A \<^verbatim>\<open>method\<close> filter with a value calls the method. The
  case-insensitive containment test of \<^verbatim>\<open>icontains\<close> belongs to the database and is a
  parameter. Stock bounds and product ids are whole numbers.
\<close>

record ProductFilter =
  pf_name :: "pystr option"
  pf_price_gte :: "rat option"
  pf_price_lte :: "rat option"
  pf_stock_gte :: "int option"
  pf_stock_lte :: "int option"
  pf_low_stock :: "bool option"

definition char_filter :: "(pystr \<Rightarrow> 'a \<Rightarrow> bool) \<Rightarrow> pystr option \<Rightarrow> 'a list \<Rightarrow> 'a list" where
  "char_filter lookup value qs =
     (case value of
        None \<Rightarrow> qs
      | Some v \<Rightarrow> if py_strip v = [] then qs else filter (lookup (py_strip v)) qs)"

definition number_filter :: "('n \<Rightarrow> 'a \<Rightarrow> bool) \<Rightarrow> 'n option \<Rightarrow> 'a list \<Rightarrow> 'a list" where
  "number_filter lookup value qs =
     (case value of None \<Rightarrow> qs | Some v \<Rightarrow> filter (lookup v) qs)"

definition method_filter :: "('a list \<Rightarrow> 'v \<Rightarrow> 'a list) \<Rightarrow> 'v option \<Rightarrow> 'a list \<Rightarrow> 'a list" where
  "method_filter method value qs = (case value of None \<Rightarrow> qs | Some v \<Rightarrow> method qs v)"

text \<open>\<^verbatim>\<open>ProductFilter.filter_low_stock\<close>\<close>

definition filter_low_stock :: "product list \<Rightarrow> bool \<Rightarrow> product list" where
  "filter_low_stock queryset value =
     (if value then filter (\<lambda>p. product_stock p < 10) queryset else queryset)"

definition product_filter_qs ::
  "(pystr \<Rightarrow> pystr \<Rightarrow> bool) \<Rightarrow> ProductFilter \<Rightarrow> product list \<Rightarrow> product list" where
  "product_filter_qs icontains f qs =
     method_filter filter_low_stock (pf_low_stock f)
       (number_filter (\<lambda>v p. product_stock p \<le> v) (pf_stock_lte f)
         (number_filter (\<lambda>v p. v \<le> product_stock p) (pf_stock_gte f)
           (number_filter (\<lambda>v p. product_price p \<le> v) (pf_price_lte f)
             (number_filter (\<lambda>v p. v \<le> product_price p) (pf_price_gte f)
               (char_filter (\<lambda>v p. icontains v (product_name p)) (pf_name f) qs)))))"

text \<open>
  \<^verbatim>\<open>OrderFilter.filter_product_id\<close>; \<^verbatim>\<open>queryset.filter(product__id=value)\<close> keeps
  the orders whose relation holds the key. \<open>order_filter_product_id\<close> is the declared
  filter \<^verbatim>\<open>product_id\<close> that calls it.
\<close>

definition filter_product_id :: "order list \<Rightarrow> int \<Rightarrow> order list" where
  "filter_product_id queryset value =
     (if value \<noteq> 0 then filter (\<lambda>ord. value \<in> set (order_product ord)) queryset
      else queryset)"

definition order_filter_product_id :: "int option \<Rightarrow> order list \<Rightarrow> order list" where
  "order_filter_product_id value qs = method_filter filter_product_id value qs"

section \<open>What the phone pattern accepts\<close>

lemma max_repeat_mem:
  "(j, t) \<in> set (max_repeat cs lo hi (i, s)) \<longleftrightarrow>
   (\<exists>k. j = i + k \<and> t = drop k s \<and> lo \<le> k \<and> k \<le> hi \<and> k \<le> length s \<and>
        list_all (in_charset cs) (take k s))"
proof (induction hi arbitrary: lo i s)
  case 0
  show ?case by auto
next
  case (Suc hi)
  show ?case
  proof (cases s)
    case Nil
    then show ?thesis by auto
  next
    case (Cons c s')
    show ?thesis
    proof (cases "in_charset cs c")
      case False
      have k0: "k = 0" if "list_all (in_charset cs) (take k s)" for k
        using that False Cons by (cases k) auto
      have "(j, t) \<in> set (max_repeat cs lo (Suc hi) (i, s)) \<longleftrightarrow> (lo = 0 \<and> j = i \<and> t = s)"
        using Cons False by auto
      also have "\<dots> \<longleftrightarrow> (\<exists>k. j = i + k \<and> t = drop k s \<and> lo \<le> k \<and> k \<le> Suc hi \<and> k \<le> length s \<and>
        list_all (in_charset cs) (take k s))"
      proof
        assume "lo = 0 \<and> j = i \<and> t = s"
        then show "\<exists>k. j = i + k \<and> t = drop k s \<and> lo \<le> k \<and> k \<le> Suc hi \<and> k \<le> length s \<and>
        list_all (in_charset cs) (take k s)" by (intro exI[of _ 0]) auto
      next
        assume "\<exists>k. j = i + k \<and> t = drop k s \<and> lo \<le> k \<and> k \<le> Suc hi \<and> k \<le> length s \<and>
        list_all (in_charset cs) (take k s)"
        then obtain k where k: "j = i + k" "t = drop k s" "lo \<le> k" "list_all (in_charset cs) (take k s)"
          by blast
        with k0[of k] show "lo = 0 \<and> j = i \<and> t = s" by simp
      qed
      finally show ?thesis .
    next
      case True
      have "(j, t) \<in> set (max_repeat cs lo (Suc hi) (i, s)) \<longleftrightarrow>
            (j, t) \<in> set (max_repeat cs (lo - 1) hi (Suc i, s')) \<or> (lo = 0 \<and> j = i \<and> t = s)"
        using Cons True by auto
      also have "\<dots> \<longleftrightarrow> (\<exists>k. j = Suc i + k \<and> t = drop k s' \<and> lo - 1 \<le> k \<and> k \<le> hi \<and> k \<le> length s' \<and>
        list_all (in_charset cs) (take k s')) \<or> (lo = 0 \<and> j = i \<and> t = s)"
        by (simp only: Suc.IH)
      also have "\<dots> \<longleftrightarrow> (\<exists>k. j = i + k \<and> t = drop k s \<and> lo \<le> k \<and> k \<le> Suc hi \<and> k \<le> length s \<and>
        list_all (in_charset cs) (take k s))" (is "?L \<longleftrightarrow> ?R")
      proof
        assume ?L
        then show ?R
        proof
          assume "\<exists>k. j = Suc i + k \<and> t = drop k s' \<and> lo - 1 \<le> k \<and> k \<le> hi \<and> k \<le> length s' \<and>
        list_all (in_charset cs) (take k s')"
          then obtain k where "j = Suc i + k \<and> t = drop k s' \<and> lo - 1 \<le> k \<and> k \<le> hi \<and> k \<le> length s' \<and>
        list_all (in_charset cs) (take k s')" by blast
          then show ?R using Cons True by (intro exI[of _ "Suc k"]) auto
        next
          assume "lo = 0 \<and> j = i \<and> t = s"
          then show ?R by (intro exI[of _ 0]) auto
        qed
      next
        assume ?R
        then obtain k where k: "j = i + k \<and> t = drop k s \<and> lo \<le> k \<and> k \<le> Suc hi \<and> k \<le> length s \<and>
        list_all (in_charset cs) (take k s)" by blast
        show ?L
        proof (cases k)
          case 0
          then show ?thesis using k by auto
        next
          case (Suc k')
          then show ?thesis using k Cons by (intro disjI1 exI[of _ k']) auto
        qed
      qed
      finally show ?thesis .
    qed
  qed
qed

lemma in_charset_LITERAL: "in_charset (LITERAL a) = (\<lambda>c. c = a)"
  by (rule ext) simp

lemma in_charset_DIGIT: "in_charset CATEGORY_DIGIT = is_decimal"
  by (rule ext) simp

lemma exec_op_IN_mem:
  "(j, t) \<in> set (exec_op (IN cs) (i, s)) \<longleftrightarrow> (\<exists>c. s = c # t \<and> in_charset cs c \<and> j = Suc i)"
  by (cases s) auto

lemma is_valid_phone_unfold:
  "is_valid_phone s \<longleftrightarrow>
    (\<exists>j1 t1. (j1, t1) \<in> set (max_repeat (LITERAL 43) 0 1 (0, s)) \<and>
      (\<exists>j2 t2. (j2, t2) \<in> set (exec_op (IN (RANGE 49 57)) (j1, t1)) \<and>
        (\<exists>j3 t3. (j3, t3) \<in> set (max_repeat CATEGORY_DIGIT 1 14 (j2, t2)) \<and>
           (t3 = [] \<or> t3 = [10]))))"
proof -
  have end_iff: "exec [AT_END] (j, t) \<noteq> [] \<longleftrightarrow> t = [] \<or> t = [10]" for j t
    by simp
  have rep_iff: "exec (MAX_REPEAT lo hi cs # ps) st \<noteq> [] \<longleftrightarrow>
      (\<exists>j t. (j, t) \<in> set (max_repeat cs lo hi st) \<and> exec ps (j, t) \<noteq> [])" for lo hi cs ps st
    by (auto simp del: max_repeat.simps)
  have in_iff: "exec (IN cs # ps) st \<noteq> [] \<longleftrightarrow>
      (\<exists>j t. (j, t) \<in> set (exec_op (IN cs) st) \<and> exec ps (j, t) \<noteq> [])" for cs ps st
    by (auto simp del: exec_op.simps(3))
  have bol: "exec (AT_BEGINNING # ps) (0, s) = exec ps (0, s)" for ps
    by simp
  show ?thesis
    unfolding is_valid_phone_def re_match_def phone_pattern_def
    by (simp only: bol rep_iff in_iff end_iff)
qed

lemma is_valid_phone_steps:
  "is_valid_phone s \<longleftrightarrow>
     (\<exists>k m d r. k \<le> 1 \<and> k \<le> length s \<and> list_all (\<lambda>c. c = 43) (take k s) \<and>
        drop k s = d # r \<and> 49 \<le> d \<and> d \<le> 57 \<and>
        1 \<le> m \<and> m \<le> 14 \<and> m \<le> length r \<and> list_all is_decimal (take m r) \<and>
        (drop m r = [] \<or> drop m r = [10]))" (is "_ \<longleftrightarrow> ?R")
proof
  assume "is_valid_phone s"
  then obtain j1 t1 j2 t2 j3 t3 where
    a: "(j1, t1) \<in> set (max_repeat (LITERAL 43) 0 1 (0, s))" and
    b: "(j2, t2) \<in> set (exec_op (IN (RANGE 49 57)) (j1, t1))" and
    c: "(j3, t3) \<in> set (max_repeat CATEGORY_DIGIT 1 14 (j2, t2))" and
    d: "t3 = [] \<or> t3 = [10]"
    unfolding is_valid_phone_unfold by blast
  from a obtain k where k: "t1 = drop k s" "k \<le> 1" "k \<le> length s" "list_all (\<lambda>c. c = 43) (take k s)"
    unfolding max_repeat_mem in_charset_LITERAL by blast
  from b obtain x where x: "t1 = x # t2" "49 \<le> x" "x \<le> 57"
    unfolding exec_op_IN_mem by auto
  from c obtain m where m: "t3 = drop m t2" "1 \<le> m" "m \<le> 14" "m \<le> length t2"
      "list_all is_decimal (take m t2)"
    unfolding max_repeat_mem in_charset_DIGIT by blast
  show ?R
    apply (rule exI[of _ k], rule exI[of _ m], rule exI[of _ x], rule exI[of _ t2])
    using k x m d by simp
next
  assume ?R
  then obtain k m x r where
    h: "k \<le> 1" "k \<le> length s" "list_all (\<lambda>c. c = 43) (take k s)"
       "drop k s = x # r" "49 \<le> x" "x \<le> 57"
       "1 \<le> m" "m \<le> 14" "m \<le> length r" "list_all is_decimal (take m r)"
       "drop m r = [] \<or> drop m r = [10]"
    by blast
  have a: "(k, x # r) \<in> set (max_repeat (LITERAL 43) 0 1 (0, s))"
    unfolding max_repeat_mem in_charset_LITERAL using h by (intro exI[of _ k]) simp
  have b: "(Suc k, r) \<in> set (exec_op (IN (RANGE 49 57)) (k, x # r))"
    using h by simp
  have c: "(Suc k + m, drop m r) \<in> set (max_repeat CATEGORY_DIGIT 1 14 (Suc k, r))"
    unfolding max_repeat_mem in_charset_DIGIT using h by (intro exI[of _ m]) simp
  show "is_valid_phone s"
    unfolding is_valid_phone_unfold using a b c h(11) by blast
qed

lemma is_valid_phone_iff:
  "is_valid_phone s \<longleftrightarrow>
     (\<exists>pre d ds post. s = pre @ d # ds @ post \<and> (pre = [] \<or> pre = [43]) \<and>
        49 \<le> d \<and> d \<le> 57 \<and> 1 \<le> length ds \<and> length ds \<le> 14 \<and> list_all is_decimal ds \<and>
        (post = [] \<or> post = [10]))" (is "_ \<longleftrightarrow> ?R")
proof
  assume "is_valid_phone s"
  then obtain k m x r where
    h: "k \<le> 1" "k \<le> length s" "list_all (\<lambda>c. c = 43) (take k s)"
       "drop k s = x # r" "49 \<le> x" "x \<le> 57"
       "1 \<le> m" "m \<le> 14" "m \<le> length r" "list_all is_decimal (take m r)"
       "drop m r = [] \<or> drop m r = [10]"
    unfolding is_valid_phone_steps by blast
  have s: "s = take k s @ x # take m r @ drop m r"
    using h(4) by (metis append_take_drop_id)
  have pre: "take k s = [] \<or> take k s = [43]"
  proof (cases k)
    case 0
    then show ?thesis by simp
  next
    case (Suc k')
    with h(1) have k1: "k = 1" by simp
    with h(2) obtain a s' where "s = a # s'" by (cases s) auto
    with k1 h(3) show ?thesis by simp
  qed
  show ?R
    apply (rule exI[of _ "take k s"], rule exI[of _ x], rule exI[of _ "take m r"], rule exI[of _ "drop m r"])
    using s pre h by (simp add: min_def)
next
  assume ?R
  then obtain pre d ds post where
    h: "s = pre @ d # ds @ post" "pre = [] \<or> pre = [43]" "49 \<le> d" "d \<le> 57"
       "1 \<le> length ds" "length ds \<le> 14" "list_all is_decimal ds" "post = [] \<or> post = [10]"
    by blast
  show "is_valid_phone s"
    unfolding is_valid_phone_steps
    apply (rule exI[of _ "length pre"], rule exI[of _ "length ds"], rule exI[of _ d], rule exI[of _ "ds @ post"])
    using h by auto
qed

lemma ascii_digit_is_decimal: "48 \<le> c \<Longrightarrow> c \<le> 57 \<Longrightarrow> is_decimal c"
  by (simp add: is_decimal_def unicode_Nd_zeros_def)

lemma spec_validatePhone_accepted:
  assumes "spec_validatePhone s"
  shows "is_valid_phone s"
proof -
  define ds where "ds = (case s of [] \<Rightarrow> [] | c # t \<Rightarrow> if c = 43 then t else s)"
  define pre where "pre = (case s of [] \<Rightarrow> [] | c # t \<Rightarrow> if c = 43 then [43] else ([]::nat list))"
  have s: "s = pre @ ds"
    by (auto simp: ds_def pre_def split: list.splits)
  from assms have len: "2 \<le> length ds" "length ds \<le> 15"
    and all: "list_all (\<lambda>c. 48 \<le> c \<and> c \<le> 57) ds"
    and hd: "(case ds of [] \<Rightarrow> False | d # _ \<Rightarrow> 49 \<le> d \<and> d \<le> 57)"
    by (simp_all add: spec_validatePhone_def ds_def Let_def)
  from len obtain d r where ds: "ds = d # r" by (cases ds) auto
  have r: "list_all is_decimal r"
    using all ds by (auto simp: list_all_iff ascii_digit_is_decimal)
  have pre: "pre = [] \<or> pre = [43]"
    by (auto simp: pre_def split: list.splits)
  show ?thesis
    unfolding is_valid_phone_iff
    apply (rule exI[of _ pre], rule exI[of _ d], rule exI[of _ r], rule exI[of _ "[]"])
    using s ds len hd r pre by auto
qed

text \<open>
  Claim C7: \<open>validatePhone\<close> accepts exactly an optional leading \<^verbatim>\<open>+\<close>, a first digit
  1 to 9 and 2 to 15 digits in total, and rejects every string with a non-digit
  character. \<open>is_valid_phone_iff\<close> gives what the pattern accepts: after the digits a
  final line feed is allowed. So the three-character string made of \<^verbatim>\<open>1\<close>, \<^verbatim>\<open>2\<close>
  and a line feed is accepted by \<open>is_valid_phone\<close>, although it is not a phone number in
  the specification's reading.
\<close>

theorem is_valid_phone_trailing_newline:
  "is_valid_phone (str ''12'' @ [10]) \<and> \<not> spec_validatePhone (str ''12'' @ [10])"
proof
  have "is_valid_phone ([] @ 49 # [50] @ [10])"
    unfolding is_valid_phone_iff
    apply (rule exI[of _ "[]"], rule exI[of _ 49], rule exI[of _ "[50]"], rule exI[of _ "[10]"])
    by (simp add: ascii_digit_is_decimal)
  then show "is_valid_phone (str ''12'' @ [10])"
    by (simp add: str_def)
  show "\<not> spec_validatePhone (str ''12'' @ [10])"
    by (simp add: spec_validatePhone_def str_def)
qed

section \<open>The store and \<^verbatim>\<open>CreateCustomer\<close>\<close>

lemma fold_max_ge: "a \<le> fold max ids (a::int)"
  by (induction ids arbitrary: a) (auto intro: order_trans[OF max.cobounded2])

lemma fold_max_mem: "x \<in> set ids \<Longrightarrow> x \<le> fold max ids (a::int)"
proof (induction ids arbitrary: a)
  case Nil
  then show ?case by simp
next
  case (Cons y ids)
  show ?case
  proof (cases "x = y")
    case True
    have "y \<le> max y a" by simp
    also have "\<dots> \<le> fold max ids (max y a)" by (rule fold_max_ge)
    finally show ?thesis using True by simp
  next
    case False
    with Cons show ?thesis by simp
  qed
qed

lemma next_id_fresh: "next_id ids \<notin> set ids"
proof
  assume "next_id ids \<in> set ids"
  then have "next_id ids \<le> fold max ids 0" by (rule fold_max_mem)
  then show False by (simp add: next_id_def)
qed

lemma next_id_positive: "0 < next_id ids"
  using fold_max_ge[of 0 ids] by (simp add: next_id_def)

lemma email_exists_iff:
  "email_exists s e \<longleftrightarrow> (\<exists>c \<in> set (customers s). customer_email c = e)"
  by (simp add: email_exists_def list_ex_iff)

lemma phone_exists_iff:
  "phone_exists s ph \<longleftrightarrow> (\<exists>c \<in> set (customers s). customer_phone c = Some ph)"
  by (simp add: phone_exists_def list_ex_iff)

lemma save_customer_store:
  "save_customer now s n e ph = (s', c) \<Longrightarrow>
     customers s' = customers s @ [c] \<and> products s' = products s \<and> orders s' = orders s \<and>
     customer_name c = n \<and> customer_email c = e \<and> customer_phone c = ph \<and>
     customer_created_at c = now \<and> customer_id c = next_id (map customer_id (customers s))"
  by (auto simp: save_customer_def Let_def)

lemma wf_save_customer:
  "wf_store s \<Longrightarrow> save_customer now s n e ph = (s', c) \<Longrightarrow> wf_store s'"
  using next_id_fresh[of "map customer_id (customers s)"]
  by (auto simp: save_customer_def Let_def wf_store_def)

lemma valid_phone_example: "is_valid_phone (str ''+15551234567'')"
  by (rule spec_validatePhone_accepted) (simp add: spec_validatePhone_def str_def)

text \<open>
  Claim C3: \<open>CreateCustomer\<close> fails with the phone-format error whenever the phone is
  absent, empty or rejected by \<open>is_valid_phone\<close>; otherwise with the email conflict when
  a stored customer has the email; otherwise with the phone conflict when a stored
  customer has the phone; otherwise it appends exactly one customer, with the input's
  name, email and phone and a fresh key, and returns it with the confirmation message.
  After a successful create, a second create with the same email fails, and with the
  email conflict once its phone passes the format check, which comes first.
\<close>

theorem create_customer_checks_in_order:
  "((\<forall>ph. in_phone inp = Some ph \<longrightarrow> ph = [] \<or> \<not> is_valid_phone ph) \<longrightarrow>
      create_customer now s inp = Inl (GraphQLError (str ''Invalid phone number format.''))) \<and>
   (in_phone inp = Some ph \<and> ph \<noteq> [] \<and> is_valid_phone ph \<longrightarrow>
      ((\<exists>c \<in> set (customers s). customer_email c = in_email inp) \<longrightarrow>
         create_customer now s inp =
           Inl (GraphQLError (str ''A customer with this email already exists.''))) \<and>
      ((\<forall>c \<in> set (customers s). customer_email c \<noteq> in_email inp) \<and>
       (\<exists>c \<in> set (customers s). customer_phone c = Some ph) \<longrightarrow>
         create_customer now s inp =
           Inl (GraphQLError (str ''A customer with this phone number already exists.''))) \<and>
      ((\<forall>c \<in> set (customers s). customer_email c \<noteq> in_email inp) \<and>
       (\<forall>c \<in> set (customers s). customer_phone c \<noteq> Some ph) \<longrightarrow>
         (\<exists>c. create_customer now s inp =
                 Inr (s\<lparr>customers := customers s @ [c]\<rparr>, c, str ''Customer created successfully.'') \<and>
              customer_name c = in_name inp \<and> customer_email c = in_email inp \<and>
              customer_phone c = Some ph \<and>
              customer_id c \<notin> set (map customer_id (customers s))))) \<and>
   (create_customer now s inp = Inr (s', c', m) \<and> in_email inp_b = in_email inp \<longrightarrow>
      (\<exists>e. create_customer now_b s' inp_b = Inl (GraphQLError e)) \<and>
      (in_phone inp_b = Some ph_b \<and> ph_b \<noteq> [] \<and> is_valid_phone ph_b \<longrightarrow>
         create_customer now_b s' inp_b =
           Inl (GraphQLError (str ''A customer with this email already exists.''))))"
proof (intro conjI impI)
  assume "\<forall>ph. in_phone inp = Some ph \<longrightarrow> ph = [] \<or> \<not> is_valid_phone ph"
  then show "create_customer now s inp = Inl (GraphQLError (str ''Invalid phone number format.''))"
    by (auto simp: create_customer_def split: option.splits)
next
  assume "in_phone inp = Some ph \<and> ph \<noteq> [] \<and> is_valid_phone ph"
    and "\<exists>c \<in> set (customers s). customer_email c = in_email inp"
  then show "create_customer now s inp =
           Inl (GraphQLError (str ''A customer with this email already exists.''))"
    by (simp add: create_customer_def email_exists_iff)
next
  assume "in_phone inp = Some ph \<and> ph \<noteq> [] \<and> is_valid_phone ph"
    and "(\<forall>c \<in> set (customers s). customer_email c \<noteq> in_email inp) \<and>
       (\<exists>c \<in> set (customers s). customer_phone c = Some ph)"
  then show "create_customer now s inp =
           Inl (GraphQLError (str ''A customer with this phone number already exists.''))"
    by (simp add: create_customer_def email_exists_iff phone_exists_iff)
next
  assume a: "in_phone inp = Some ph \<and> ph \<noteq> [] \<and> is_valid_phone ph"
    and b: "(\<forall>c \<in> set (customers s). customer_email c \<noteq> in_email inp) \<and>
       (\<forall>c \<in> set (customers s). customer_phone c \<noteq> Some ph)"
  obtain s1 c where sv: "save_customer now s (in_name inp) (in_email inp) (Some ph) = (s1, c)"
    by (cases "save_customer now s (in_name inp) (in_email inp) (Some ph)")
  have s1: "s1 = s\<lparr>customers := customers s @ [c]\<rparr>"
    using sv by (auto simp: save_customer_def Let_def)
  have "create_customer now s inp = Inr (s1, c, str ''Customer created successfully.'')"
    using a b sv by (simp add: create_customer_def email_exists_iff phone_exists_iff)
  moreover have "customer_id c \<notin> set (map customer_id (customers s))"
    using save_customer_store[OF sv] next_id_fresh[of "map customer_id (customers s)"] by simp
  ultimately show "\<exists>c. create_customer now s inp =
                 Inr (s\<lparr>customers := customers s @ [c]\<rparr>, c, str ''Customer created successfully.'') \<and>
              customer_name c = in_name inp \<and> customer_email c = in_email inp \<and>
              customer_phone c = Some ph \<and>
              customer_id c \<notin> set (map customer_id (customers s))"
    using save_customer_store[OF sv] s1 by (intro exI[of _ c]) simp
next
  assume a: "create_customer now s inp = Inr (s', c', m) \<and> in_email inp_b = in_email inp"
  then obtain ph0 where sv: "save_customer now s (in_name inp) (in_email inp) (Some ph0) = (s', c')"
    by (auto simp: create_customer_def split: option.splits if_splits prod.splits)
  have ex: "email_exists s' (in_email inp_b)"
    using save_customer_store[OF sv] a by (auto simp: email_exists_iff)
  show "\<exists>e. create_customer now_b s' inp_b = Inl (GraphQLError e)"
    using ex by (auto simp: create_customer_def split: option.splits)
  show "create_customer now_b s' inp_b =
           Inl (GraphQLError (str ''A customer with this email already exists.''))"
    if "in_phone inp_b = Some ph_b \<and> ph_b \<noteq> [] \<and> is_valid_phone ph_b"
    using ex that by (simp add: create_customer_def)
qed


theorem create_customer_checks_in_order_witness:
  "create_customer 7 empty_store
     \<lparr>in_name = str ''A'', in_email = str ''a@x.com'', in_phone = Some (str ''+15551234567'')\<rparr> =
   Inr (\<lparr>customers = [\<lparr>customer_id = 1, customer_name = str ''A'', customer_email = str ''a@x.com'',
                       customer_phone = Some (str ''+15551234567''), customer_created_at = 7\<rparr>],
         products = [], orders = []\<rparr>,
        \<lparr>customer_id = 1, customer_name = str ''A'', customer_email = str ''a@x.com'',
          customer_phone = Some (str ''+15551234567''), customer_created_at = 7\<rparr>,
        str ''Customer created successfully.'') \<and>
   create_customer 8
     \<lparr>customers = [\<lparr>customer_id = 1, customer_name = str ''A'', customer_email = str ''a@x.com'',
                     customer_phone = Some (str ''+15551234567''), customer_created_at = 7\<rparr>],
       products = [], orders = []\<rparr>
     \<lparr>in_name = str ''B'', in_email = str ''a@x.com'', in_phone = Some (str ''+442071234567'')\<rparr> =
   Inl (GraphQLError (str ''A customer with this email already exists.'')) \<and>
   create_customer 8 empty_store
     \<lparr>in_name = str ''B'', in_email = str ''b@x.com'', in_phone = None\<rparr> =
   Inl (GraphQLError (str ''Invalid phone number format.''))"
proof -
  have v2: "is_valid_phone (str ''+442071234567'')"
    by (rule spec_validatePhone_accepted) (simp add: spec_validatePhone_def str_def)
  have first: "create_customer 7 empty_store
     \<lparr>in_name = str ''A'', in_email = str ''a@x.com'', in_phone = Some (str ''+15551234567'')\<rparr> =
   Inr (\<lparr>customers = [\<lparr>customer_id = 1, customer_name = str ''A'', customer_email = str ''a@x.com'',
                       customer_phone = Some (str ''+15551234567''), customer_created_at = 7\<rparr>],
         products = [], orders = []\<rparr>,
        \<lparr>customer_id = 1, customer_name = str ''A'', customer_email = str ''a@x.com'',
          customer_phone = Some (str ''+15551234567''), customer_created_at = 7\<rparr>,
        str ''Customer created successfully.'')"
    using valid_phone_example
    by (simp add: create_customer_def save_customer_def Let_def next_id_def email_exists_def
        phone_exists_def empty_store_def str_def)
  have second: "create_customer 8
     \<lparr>customers = [\<lparr>customer_id = 1, customer_name = str ''A'', customer_email = str ''a@x.com'',
                     customer_phone = Some (str ''+15551234567''), customer_created_at = 7\<rparr>],
       products = [], orders = []\<rparr>
     \<lparr>in_name = str ''B'', in_email = str ''a@x.com'', in_phone = Some (str ''+442071234567'')\<rparr> =
   Inl (GraphQLError (str ''A customer with this email already exists.''))"
    using create_customer_checks_in_order[where now = 7 and s = empty_store
        and inp = "\<lparr>in_name = str ''A'', in_email = str ''a@x.com'', in_phone = Some (str ''+15551234567'')\<rparr>"
        and inp_b = "\<lparr>in_name = str ''B'', in_email = str ''a@x.com'', in_phone = Some (str ''+442071234567'')\<rparr>"
        and ph_b = "str ''+442071234567''" and now_b = 8] first v2
    by (simp add: str_def)
  have third: "create_customer 8 empty_store
     \<lparr>in_name = str ''B'', in_email = str ''b@x.com'', in_phone = None\<rparr> =
   Inl (GraphQLError (str ''Invalid phone number format.''))"
    using create_customer_checks_in_order[where now = 8 and s = empty_store
        and inp = "\<lparr>in_name = str ''B'', in_email = str ''b@x.com'', in_phone = None\<rparr>"]
    by simp
  show ?thesis using first second third by (intro conjI)
qed

section \<open>\<^verbatim>\<open>BulkCreateCustomers\<close>\<close>

lemma bulk_loop_append:
  "bulk_loop now (xs @ ys) st = bulk_loop now ys (bulk_loop now xs st)"
proof (induction xs arbitrary: st)
  case Nil
  show ?case by simp
next
  case (Cons x xs)
  obtain s cs es where st: "st = (s, cs, es)" by (cases st)
  show ?case unfolding st using Cons.IH
    by (cases "bulk_item now s x") (auto split: prod.splits)
qed

lemma bulk_loop_acc:
  "bulk_loop now xs (s, cs, es) =
     (case bulk_loop now xs (s, [], []) of (s', cs', es') \<Rightarrow> (s', cs @ cs', es @ es'))"
proof (induction xs arbitrary: s cs es)
  case Nil
  show ?case by simp
next
  case (Cons x xs)
  show ?case
  proof (cases "bulk_item now s x")
    case (Inl e)
    show ?thesis
      using Cons.IH[of s cs "es @ [e]"] Cons.IH[of s "[]" "[e]"] Inl
      by (simp split: prod.splits)
  next
    case (Inr r)
    obtain s1 c where r: "r = (s1, c)" by (cases r)
    show ?thesis
      using Cons.IH[of s1 "cs @ [c]" es] Cons.IH[of s1 "[c]" "[]"] Inr r
      by (simp split: prod.splits)
  qed
qed

lemma bulk_item_Inr:
  "bulk_item now s item = Inr (s', c) \<Longrightarrow>
     customers s' = customers s @ [c] \<and> products s' = products s \<and> orders s' = orders s \<and>
     customer_name c = in_name item \<and> customer_email c = in_email item \<and>
     customer_phone c = in_phone item"
  by (auto simp: bulk_item_def Let_def save_customer_def split: if_splits)

lemma bulk_item_rejects_iff:
  "(\<exists>e. bulk_item now s item = Inl e) \<longleftrightarrow>
     in_name item = [] \<or> in_email item = [] \<or>
     (\<exists>ph. in_phone item = Some ph \<and> ph \<noteq> [] \<and> \<not> is_valid_phone ph) \<or>
     (\<exists>c \<in> set (customers s). customer_email c = in_email item)"
  by (auto simp: bulk_item_def Let_def email_exists_iff split: option.splits)

lemma bulk_loop_result:
  "bulk_loop now xs (s, [], []) = (s', created, errors) \<Longrightarrow>
     length created + length errors = length xs \<and> customers s' = customers s @ created \<and>
     products s' = products s \<and> orders s' = orders s"
proof (induction xs arbitrary: s s' created errors)
  case Nil
  then show ?case by simp
next
  case (Cons x xs)
  show ?case
  proof (cases "bulk_item now s x")
    case (Inl e)
    obtain s2 cs2 es2 where rest: "bulk_loop now xs (s, [], []) = (s2, cs2, es2)"
      by (cases "bulk_loop now xs (s, [], [])")
    have "bulk_loop now (x # xs) (s, [], []) = (s2, cs2, e # es2)"
      using Inl rest bulk_loop_acc[of now xs s "[]" "[e]"] by simp
    with Cons.prems have "s' = s2" "created = cs2" "errors = e # es2" by simp_all
    with Cons.IH[OF rest] show ?thesis by simp
  next
    case (Inr r)
    obtain s1 c where r: "r = (s1, c)" by (cases r)
    obtain s2 cs2 es2 where rest: "bulk_loop now xs (s1, [], []) = (s2, cs2, es2)"
      by (cases "bulk_loop now xs (s1, [], [])")
    have "bulk_loop now (x # xs) (s, [], []) = (s2, c # cs2, es2)"
      using Inr r rest bulk_loop_acc[of now xs s1 "[c]" "[]"] by simp
    with Cons.prems have "s' = s2" "created = c # cs2" "errors = es2" by simp_all
    with Cons.IH[OF rest] bulk_item_Inr[of now s x s1 c] Inr r show ?thesis by simp
  qed
qed



lemma bulk_create_customers_step:
  assumes "bulk_create_customers now s pre = (s1, cs1, es1)"
  shows "bulk_create_customers now s (pre @ item # post) =
     bulk_loop now post
       (case bulk_item now s1 item of
          Inl e \<Rightarrow> (s1, cs1, es1 @ [e])
        | Inr (s2, c) \<Rightarrow> (s2, cs1 @ [c], es1))"
  using assms unfolding bulk_create_customers_def bulk_loop_append
  by (simp split: sum.splits)



lemma email_message_not_required:
  "str ''Name and email are required fields.'' \<noteq> str ''A customer with email '' @ e @ t"
  by (simp add: str_def)

lemma email_message_not_phone:
  "str ''Invalid phone number format. '' @ ph \<noteq> str ''A customer with email '' @ e @ t"
  by (simp add: str_def)

lemma bulk_item_email_error_iff:
  "bulk_item now s item =
     Inl (str ''A customer with email '' @ in_email item @ str '' already exists.'') \<longleftrightarrow>
   in_name item \<noteq> [] \<and> in_email item \<noteq> [] \<and>
   (\<forall>ph. in_phone item = Some ph \<longrightarrow> ph = [] \<or> is_valid_phone ph) \<and>
   (\<exists>c \<in> set (customers s). customer_email c = in_email item)"
  using email_message_not_required[of "in_email item" "str '' already exists.''"]
    email_message_not_phone[of _ "in_email item" "str '' already exists.''"]
  by (auto simp: bulk_item_def Let_def email_exists_iff split: option.splits)

text \<open>
  Claim C5, as amended: an item of a batch fails with the email-already-exists message
  exactly when it has a name and an email, its phone is absent, empty or valid, and its
  email is held by a customer persisted when the item is reached: a customer of the store
  before the call, or one created from an earlier item of the same batch. So of two
  items that pass the other checks and share an email new to the store, the first is
  created and the second is rejected with that message.
\<close>

theorem bulk_email_check_sees_earlier_items:
  "(bulk_create_customers now s pre = (s1, cs1, es1) \<longrightarrow>
      customers s1 = customers s @ cs1 \<and>
      bulk_create_customers now s (pre @ item # post) =
        bulk_loop now post
          (case bulk_item now s1 item of
             Inl e \<Rightarrow> (s1, cs1, es1 @ [e])
           | Inr (s2, c) \<Rightarrow> (s2, cs1 @ [c], es1)) \<and>
      (bulk_item now s1 item =
         Inl (str ''A customer with email '' @ in_email item @ str '' already exists.'') \<longleftrightarrow>
       in_name item \<noteq> [] \<and> in_email item \<noteq> [] \<and>
       (\<forall>ph. in_phone item = Some ph \<longrightarrow> ph = [] \<or> is_valid_phone ph) \<and>
       (\<exists>c \<in> set (customers s @ cs1). customer_email c = in_email item))) \<and>
   (in_name a \<noteq> [] \<and> in_name b \<noteq> [] \<and> in_email a \<noteq> [] \<and> in_email b = in_email a \<and>
    (\<forall>ph. in_phone a = Some ph \<longrightarrow> ph = [] \<or> is_valid_phone ph) \<and>
    (\<forall>ph. in_phone b = Some ph \<longrightarrow> ph = [] \<or> is_valid_phone ph) \<and>
    (\<forall>c \<in> set (customers s). customer_email c \<noteq> in_email a) \<longrightarrow>
      (\<exists>c. customer_email c = in_email a \<and> customer_name c = in_name a \<and>
           bulk_create_customers now s [a, b] =
             (s\<lparr>customers := customers s @ [c]\<rparr>, [c],
              [str ''A customer with email '' @ in_email b @ str '' already exists.''])))"
proof -
  have part1: "bulk_create_customers now s pre = (s1, cs1, es1) \<longrightarrow>
      customers s1 = customers s @ cs1 \<and>
      bulk_create_customers now s (pre @ item # post) =
        bulk_loop now post
          (case bulk_item now s1 item of
             Inl e \<Rightarrow> (s1, cs1, es1 @ [e])
           | Inr (s2, c) \<Rightarrow> (s2, cs1 @ [c], es1)) \<and>
      (bulk_item now s1 item =
         Inl (str ''A customer with email '' @ in_email item @ str '' already exists.'') \<longleftrightarrow>
       in_name item \<noteq> [] \<and> in_email item \<noteq> [] \<and>
       (\<forall>ph. in_phone item = Some ph \<longrightarrow> ph = [] \<or> is_valid_phone ph) \<and>
       (\<exists>c \<in> set (customers s @ cs1). customer_email c = in_email item))"
  proof
    assume a: "bulk_create_customers now s pre = (s1, cs1, es1)"
    then have st: "customers s1 = customers s @ cs1"
      using bulk_loop_result[of now pre s s1 cs1 es1] by (simp add: bulk_create_customers_def)
    show "customers s1 = customers s @ cs1 \<and>
      bulk_create_customers now s (pre @ item # post) =
        bulk_loop now post
          (case bulk_item now s1 item of
             Inl e \<Rightarrow> (s1, cs1, es1 @ [e])
           | Inr (s2, c) \<Rightarrow> (s2, cs1 @ [c], es1)) \<and>
      (bulk_item now s1 item =
         Inl (str ''A customer with email '' @ in_email item @ str '' already exists.'') \<longleftrightarrow>
       in_name item \<noteq> [] \<and> in_email item \<noteq> [] \<and>
       (\<forall>ph. in_phone item = Some ph \<longrightarrow> ph = [] \<or> is_valid_phone ph) \<and>
       (\<exists>c \<in> set (customers s @ cs1). customer_email c = in_email item))"
      using st bulk_create_customers_step[OF a, of item post]
        bulk_item_email_error_iff[of now s1 item]
      by simp
  qed
  have part2: "in_name a \<noteq> [] \<and> in_name b \<noteq> [] \<and> in_email a \<noteq> [] \<and> in_email b = in_email a \<and>
    (\<forall>ph. in_phone a = Some ph \<longrightarrow> ph = [] \<or> is_valid_phone ph) \<and>
    (\<forall>ph. in_phone b = Some ph \<longrightarrow> ph = [] \<or> is_valid_phone ph) \<and>
    (\<forall>c \<in> set (customers s). customer_email c \<noteq> in_email a) \<longrightarrow>
      (\<exists>c. customer_email c = in_email a \<and> customer_name c = in_name a \<and>
           bulk_create_customers now s [a, b] =
             (s\<lparr>customers := customers s @ [c]\<rparr>, [c],
              [str ''A customer with email '' @ in_email b @ str '' already exists.'']))"
  proof
    assume h: "in_name a \<noteq> [] \<and> in_name b \<noteq> [] \<and> in_email a \<noteq> [] \<and> in_email b = in_email a \<and>
      (\<forall>ph. in_phone a = Some ph \<longrightarrow> ph = [] \<or> is_valid_phone ph) \<and>
      (\<forall>ph. in_phone b = Some ph \<longrightarrow> ph = [] \<or> is_valid_phone ph) \<and>
      (\<forall>c \<in> set (customers s). customer_email c \<noteq> in_email a)"
    then have "\<not> (\<exists>e. bulk_item now s a = Inl e)"
      unfolding bulk_item_rejects_iff by blast
    then obtain s2 c where first: "bulk_item now s a = Inr (s2, c)"
      by (cases "bulk_item now s a") auto
    have c: "customers s2 = customers s @ [c]" "customer_email c = in_email a"
      "customer_name c = in_name a"
      using bulk_item_Inr[OF first] by simp_all
    have s2: "s2 = s\<lparr>customers := customers s @ [c]\<rparr>"
      using first by (auto simp: bulk_item_def Let_def save_customer_def split: if_splits)
    have second: "bulk_item now s2 b =
        Inl (str ''A customer with email '' @ in_email b @ str '' already exists.'')"
      unfolding bulk_item_email_error_iff using h c by auto
    have "bulk_create_customers now s [a, b] =
             (s\<lparr>customers := customers s @ [c]\<rparr>, [c],
              [str ''A customer with email '' @ in_email b @ str '' already exists.''])"
      using first second s2 by (simp add: bulk_create_customers_def)
    with c show "\<exists>c. customer_email c = in_email a \<and> customer_name c = in_name a \<and>
           bulk_create_customers now s [a, b] =
             (s\<lparr>customers := customers s @ [c]\<rparr>, [c],
              [str ''A customer with email '' @ in_email b @ str '' already exists.''])"
      by blast
  qed
  show ?thesis by (rule conjI[OF part1 part2])
qed

theorem bulk_sibling_email_counterexample:
  "\<not> email_exists empty_store (str ''a@x.com'') \<and>
   bulk_create_customers 7 empty_store
     [\<lparr>in_name = str ''A'', in_email = str ''a@x.com'', in_phone = None\<rparr>,
      \<lparr>in_name = str ''B'', in_email = str ''a@x.com'', in_phone = None\<rparr>] =
   (\<lparr>customers =
        [\<lparr>customer_id = 1, customer_name = str ''A'', customer_email = str ''a@x.com'',
           customer_phone = None, customer_created_at = 7\<rparr>],
      products = [], orders = []\<rparr>,
    [\<lparr>customer_id = 1, customer_name = str ''A'', customer_email = str ''a@x.com'',
       customer_phone = None, customer_created_at = 7\<rparr>],
    [str ''A customer with email a@x.com already exists.''])"
  by (simp add: bulk_create_customers_def bulk_item_def save_customer_def Let_def
      email_exists_def empty_store_def next_id_def str_def)

theorem bulk_email_check_sees_earlier_items_witness:
  "bulk_create_customers 7 empty_store
     [\<lparr>in_name = str ''A'', in_email = str ''a@x.com'', in_phone = None\<rparr>] =
   (\<lparr>customers =
        [\<lparr>customer_id = 1, customer_name = str ''A'', customer_email = str ''a@x.com'',
           customer_phone = None, customer_created_at = 7\<rparr>],
      products = [], orders = []\<rparr>,
    [\<lparr>customer_id = 1, customer_name = str ''A'', customer_email = str ''a@x.com'',
       customer_phone = None, customer_created_at = 7\<rparr>],
    []) \<and>
   bulk_item 7
     \<lparr>customers =
        [\<lparr>customer_id = 1, customer_name = str ''A'', customer_email = str ''a@x.com'',
           customer_phone = None, customer_created_at = 7\<rparr>],
      products = [], orders = []\<rparr>
     \<lparr>in_name = str ''B'', in_email = str ''a@x.com'', in_phone = None\<rparr> =
   Inl (str ''A customer with email a@x.com already exists.'') \<and>
   bulk_create_customers 7 empty_store
     [\<lparr>in_name = str ''A'', in_email = str ''a@x.com'', in_phone = None\<rparr>,
      \<lparr>in_name = str ''B'', in_email = str ''a@x.com'', in_phone = None\<rparr>] =
   (\<lparr>customers =
        [\<lparr>customer_id = 1, customer_name = str ''A'', customer_email = str ''a@x.com'',
           customer_phone = None, customer_created_at = 7\<rparr>],
      products = [], orders = []\<rparr>,
    [\<lparr>customer_id = 1, customer_name = str ''A'', customer_email = str ''a@x.com'',
       customer_phone = None, customer_created_at = 7\<rparr>],
    [str ''A customer with email a@x.com already exists.''])"
proof -
  have pre: "bulk_create_customers 7 empty_store
     [\<lparr>in_name = str ''A'', in_email = str ''a@x.com'', in_phone = None\<rparr>] =
   (\<lparr>customers =
        [\<lparr>customer_id = 1, customer_name = str ''A'', customer_email = str ''a@x.com'',
           customer_phone = None, customer_created_at = 7\<rparr>],
      products = [], orders = []\<rparr>,
    [\<lparr>customer_id = 1, customer_name = str ''A'', customer_email = str ''a@x.com'',
       customer_phone = None, customer_created_at = 7\<rparr>],
    [])"
    by (simp add: bulk_create_customers_def bulk_item_def save_customer_def Let_def
        email_exists_def empty_store_def next_id_def str_def)
  note step = mp[OF conjunct1[OF bulk_email_check_sees_earlier_items[where now = 7
        and s = empty_store
        and pre = "[\<lparr>in_name = str ''A'', in_email = str ''a@x.com'', in_phone = None\<rparr>]"
        and item = "\<lparr>in_name = str ''B'', in_email = str ''a@x.com'', in_phone = None\<rparr>"
        and post = "[]"]], OF pre]
  have item: "bulk_item 7
     \<lparr>customers =
        [\<lparr>customer_id = 1, customer_name = str ''A'', customer_email = str ''a@x.com'',
           customer_phone = None, customer_created_at = 7\<rparr>],
      products = [], orders = []\<rparr>
     \<lparr>in_name = str ''B'', in_email = str ''a@x.com'', in_phone = None\<rparr> =
   Inl (str ''A customer with email a@x.com already exists.'')"
    using step by (simp add: empty_store_def str_def)
  have both: "bulk_create_customers 7 empty_store
     [\<lparr>in_name = str ''A'', in_email = str ''a@x.com'', in_phone = None\<rparr>,
      \<lparr>in_name = str ''B'', in_email = str ''a@x.com'', in_phone = None\<rparr>] =
   (\<lparr>customers =
        [\<lparr>customer_id = 1, customer_name = str ''A'', customer_email = str ''a@x.com'',
           customer_phone = None, customer_created_at = 7\<rparr>],
      products = [], orders = []\<rparr>,
    [\<lparr>customer_id = 1, customer_name = str ''A'', customer_email = str ''a@x.com'',
       customer_phone = None, customer_created_at = 7\<rparr>],
    [str ''A customer with email a@x.com already exists.''])"
    using step item by simp
  show ?thesis using pre item both by (intro conjI)
qed

lemma create_customer_keeps_phones_unique:
  assumes "phones_unique s" and "create_customer now s inp = Inr (s', c, m)"
  shows "phones_unique s'"
proof -
  from assms(2) obtain ph where ph: "in_phone inp = Some ph" "\<not> phone_exists s ph"
    and sv: "save_customer now s (in_name inp) (in_email inp) (Some ph) = (s', c)"
    by (auto simp: create_customer_def split: option.splits if_splits prod.splits)
  have new: "customers s' = customers s @ [c]" "customer_phone c = Some ph"
    using save_customer_store[OF sv] by simp_all
  have "ph \<notin> set (List.map_filter customer_phone (customers s))"
    using ph(2) by (auto simp: phone_exists_iff List.map_filter_def)
  then show ?thesis
    using assms(1) new by (simp add: phones_unique_def List.map_filter_def)
qed

text \<open>
  Claim C8: no two persisted customers share a phone. \<open>CreateCustomer\<close> keeps this
  (\<open>create_customer_keeps_phones_unique\<close>), but \<open>BulkCreateCustomers\<close> never looks a
  phone up: from the empty store, a batch of two items with different emails and the
  same valid phone creates both customers, and the store then holds the phone twice.
\<close>

theorem bulk_create_customers_duplicate_phone:
  "phones_unique empty_store \<and>
   bulk_create_customers 7 empty_store
     [\<lparr>in_name = str ''A'', in_email = str ''a@x.com'', in_phone = Some (str ''+15551234567'')\<rparr>,
      \<lparr>in_name = str ''B'', in_email = str ''b@x.com'', in_phone = Some (str ''+15551234567'')\<rparr>] =
   (\<lparr>customers =
        [\<lparr>customer_id = 1, customer_name = str ''A'', customer_email = str ''a@x.com'',
           customer_phone = Some (str ''+15551234567''), customer_created_at = 7\<rparr>,
         \<lparr>customer_id = 2, customer_name = str ''B'', customer_email = str ''b@x.com'',
           customer_phone = Some (str ''+15551234567''), customer_created_at = 7\<rparr>],
      products = [], orders = []\<rparr>,
    [\<lparr>customer_id = 1, customer_name = str ''A'', customer_email = str ''a@x.com'',
       customer_phone = Some (str ''+15551234567''), customer_created_at = 7\<rparr>,
     \<lparr>customer_id = 2, customer_name = str ''B'', customer_email = str ''b@x.com'',
       customer_phone = Some (str ''+15551234567''), customer_created_at = 7\<rparr>],
    []) \<and>
   \<not> phones_unique (fst (bulk_create_customers 7 empty_store
     [\<lparr>in_name = str ''A'', in_email = str ''a@x.com'', in_phone = Some (str ''+15551234567'')\<rparr>,
      \<lparr>in_name = str ''B'', in_email = str ''b@x.com'', in_phone = Some (str ''+15551234567'')\<rparr>]))"
proof -
  have run: "bulk_create_customers 7 empty_store
     [\<lparr>in_name = str ''A'', in_email = str ''a@x.com'', in_phone = Some (str ''+15551234567'')\<rparr>,
      \<lparr>in_name = str ''B'', in_email = str ''b@x.com'', in_phone = Some (str ''+15551234567'')\<rparr>] =
   (\<lparr>customers =
        [\<lparr>customer_id = 1, customer_name = str ''A'', customer_email = str ''a@x.com'',
           customer_phone = Some (str ''+15551234567''), customer_created_at = 7\<rparr>,
         \<lparr>customer_id = 2, customer_name = str ''B'', customer_email = str ''b@x.com'',
           customer_phone = Some (str ''+15551234567''), customer_created_at = 7\<rparr>],
      products = [], orders = []\<rparr>,
    [\<lparr>customer_id = 1, customer_name = str ''A'', customer_email = str ''a@x.com'',
       customer_phone = Some (str ''+15551234567''), customer_created_at = 7\<rparr>,
     \<lparr>customer_id = 2, customer_name = str ''B'', customer_email = str ''b@x.com'',
       customer_phone = Some (str ''+15551234567''), customer_created_at = 7\<rparr>],
    [])"
    using valid_phone_example
    by (simp add: bulk_create_customers_def bulk_item_def save_customer_def Let_def
        email_exists_def empty_store_def next_id_def str_def)
  have "phones_unique empty_store"
    by (simp add: phones_unique_def empty_store_def List.map_filter_def)
  moreover have "\<not> phones_unique (fst (bulk_create_customers 7 empty_store
     [\<lparr>in_name = str ''A'', in_email = str ''a@x.com'', in_phone = Some (str ''+15551234567'')\<rparr>,
      \<lparr>in_name = str ''B'', in_email = str ''b@x.com'', in_phone = Some (str ''+15551234567'')\<rparr>]))"
    unfolding run by (simp add: phones_unique_def List.map_filter_def)
  ultimately show ?thesis using run by simp
qed

section \<open>\<^verbatim>\<open>CreateOrder\<close>\<close>

lemma filter_key_unique:
  "distinct (map f xs) \<Longrightarrow> x \<in> set xs \<Longrightarrow> filter (\<lambda>y. f y = f x) xs = [x]"
proof (induction xs)
  case Nil
  then show ?case by simp
next
  case (Cons a xs)
  show ?case
  proof (cases "a = x")
    case True
    have "f x \<notin> f ` set xs"
      using Cons.prems(1) True by simp
    then have "\<forall>y \<in> set xs. f y \<noteq> f x"
      by (metis imageI)
    then have "filter (\<lambda>y. f y = f x) xs = []"
      by (simp add: filter_empty_conv)
    with True show ?thesis by simp
  next
    case False
    with Cons.prems have "x \<in> set xs" "f a \<noteq> f x" by auto
    with Cons show ?thesis by simp
  qed
qed

lemma objects_get_missing:
  "i \<notin> f ` set xs \<Longrightarrow> objects_get (filter (\<lambda>y. f y = i) xs) = DoesNotExist"
proof -
  assume "i \<notin> f ` set xs"
  then have "filter (\<lambda>y. f y = i) xs = []"
    by (auto simp: filter_empty_conv)
  then show ?thesis by simp
qed

lemma objects_get_found:
  "distinct (map f xs) \<Longrightarrow> x \<in> set xs \<Longrightarrow> objects_get (filter (\<lambda>y. f y = f x) xs) = Found x"
  by (simp add: filter_key_unique)

lemma resolved_length_iff:
  assumes "distinct (map f xs)"
  shows "length (filter (\<lambda>p. f p \<in> set ids) xs) = length ids \<longleftrightarrow>
         distinct ids \<and> set ids \<subseteq> f ` set xs"
proof -
  let ?F = "filter (\<lambda>p. f p \<in> set ids) xs"
  have d: "distinct (map f ?F)"
    using assms by (rule distinct_map_filter)
  have s: "set (map f ?F) = set ids \<inter> f ` set xs"
    by auto
  have len: "length ?F = card (set ids \<inter> f ` set xs)"
    using distinct_card[OF d] s by simp
  have le1: "card (set ids \<inter> f ` set xs) \<le> card (set ids)"
    by (rule card_mono) auto
  have le2: "card (set ids) \<le> length ids"
    by (rule card_length)
  show ?thesis
  proof
    assume eq: "length ?F = length ids"
    with len le1 le2 have c1: "card (set ids) = length ids"
      and c2: "card (set ids \<inter> f ` set xs) = card (set ids)" by simp_all
    from c1 have "distinct ids" by (rule card_distinct)
    moreover have "set ids \<inter> f ` set xs = set ids"
      using c2 by (intro card_subset_eq) auto
    ultimately show "distinct ids \<and> set ids \<subseteq> f ` set xs" by blast
  next
    assume h: "distinct ids \<and> set ids \<subseteq> f ` set xs"
    then have "set ids \<inter> f ` set xs = set ids" by blast
    with len h show "length ?F = length ids"
      by (simp add: distinct_card)
  qed
qed

lemma resolved_empty_iff:
  "filter (\<lambda>p. f p \<in> set ids) xs = [] \<longleftrightarrow> set ids \<inter> f ` set xs = {}"
  by (auto simp: filter_empty_conv)

lemma foldl_plus_sum_list: "foldl (+) a xs = a + sum_list (xs :: rat list)"
  by (induction xs arbitrary: a) (simp_all add: ac_simps)

lemma save_order_store:
  "save_order s c amt d ps = (s', ord) \<Longrightarrow>
     orders s' = orders s @ [ord] \<and> customers s' = customers s \<and> products s' = products s \<and>
     order_customer ord = customer_id c \<and> order_total_amount ord = amt \<and>
     order_order_date ord = d \<and> order_product ord = map product_id ps \<and>
     order_id ord = next_id (map order_id (orders s))"
  by (auto simp: save_order_def Let_def)


lemma resolved_length_le:
  assumes "distinct (map f xs)"
  shows "length (filter (\<lambda>p. f p \<in> set ids) xs) \<le> length ids"
proof -
  let ?F = "filter (\<lambda>p. f p \<in> set ids) xs"
  have d: "distinct (map f ?F)"
    using assms by (rule distinct_map_filter)
  have "set (map f ?F) \<subseteq> set ids" by auto
  then have "card (set (map f ?F)) \<le> card (set ids)"
    by (intro card_mono) auto
  moreover have "card (set (map f ?F)) = length ?F"
    using distinct_card[OF d] by simp
  moreover have "card (set ids) \<le> length ids" by (rule card_length)
  ultimately show ?thesis by simp
qed

lemma map_filter_length_le: "length (List.map_filter f xs) \<le> length xs"
  by (simp add: List.map_filter_def)

lemma map_filter_full_iff:
  "length (List.map_filter f xs) = length xs \<longleftrightarrow> (\<forall>x \<in> set xs. f x \<noteq> None)"
proof (induction xs)
  case Nil
  show ?case by (simp add: List.map_filter_def)
next
  case (Cons a xs)
  show ?case
  proof (cases "f a")
    case None
    have "length (filter (\<lambda>x. f x \<noteq> None) xs) \<noteq> Suc (length xs)"
      using length_filter_le[of "\<lambda>x. f x \<noteq> None" xs] by linarith
    with None show ?thesis by (auto simp: List.map_filter_def)
  next
    case (Some y)
    with Cons show ?thesis by (simp add: List.map_filter_def)
  qed
qed

lemma map_filter_full_map:
  "(\<forall>x \<in> set xs. f x \<noteq> None) \<Longrightarrow> map f xs = map Some (List.map_filter f xs)"
  by (induction xs) (auto simp: List.map_filter_def)

lemma resolved_count_iff:
  assumes "distinct (map f xs)"
  shows "length (filter (\<lambda>p. f p \<in> set (requested_keys ids)) xs) = length ids \<longleftrightarrow>
         (\<forall>i \<in> set ids. id_key i \<noteq> None) \<and> distinct (requested_keys ids) \<and>
         set (requested_keys ids) \<subseteq> f ` set xs"
proof -
  let ?keys = "requested_keys ids"
  let ?F = "filter (\<lambda>p. f p \<in> set ?keys) xs"
  have le1: "length ?F \<le> length ?keys"
    using assms by (rule resolved_length_le)
  have le2: "length ?keys \<le> length ids"
    unfolding requested_keys_def by (rule map_filter_length_le)
  have full: "length ?keys = length ids \<longleftrightarrow> (\<forall>i \<in> set ids. id_key i \<noteq> None)"
    unfolding requested_keys_def by (rule map_filter_full_iff)
  have res: "length ?F = length ?keys \<longleftrightarrow> distinct ?keys \<and> set ?keys \<subseteq> f ` set xs"
    using assms by (rule resolved_length_iff)
  show ?thesis
  proof
    assume "length ?F = length ids"
    with le1 le2 have "length ?keys = length ids" "length ?F = length ?keys" by simp_all
    with full res show "(\<forall>i \<in> set ids. id_key i \<noteq> None) \<and> distinct ?keys \<and>
         set ?keys \<subseteq> f ` set xs" by blast
  next
    assume "(\<forall>i \<in> set ids. id_key i \<noteq> None) \<and> distinct ?keys \<and> set ?keys \<subseteq> f ` set xs"
    with full res have "length ?keys = length ids" "length ?F = length ?keys" by blast+
    then show "length ?F = length ids" by simp
  qed
qed

lemma decimal_value_ascii: "48 \<le> c \<Longrightarrow> c \<le> 57 \<Longrightarrow> decimal_value c = Some (c - 48)"
  by (simp add: decimal_value_def unicode_Nd_zeros_def)

lemma decimal_value_a: "decimal_value 97 = None"
  by (simp add: decimal_value_def unicode_Nd_zeros_def)

lemma py_int_1: "py_int (str ''1'') = Some 1"
  by (simp add: py_int_def str_def int_space_def decimal_value_ascii List.map_filter_def)

lemma py_int_2: "py_int (str ''2'') = Some 2"
  by (simp add: py_int_def str_def int_space_def decimal_value_ascii List.map_filter_def)

lemma py_int_abc: "py_int (str ''abc'') = None"
  by (simp add: py_int_def str_def int_space_def decimal_value_a List.map_filter_def)

lemma py_int_big: "py_int (str ''9223372036854775808'') = Some 9223372036854775808"
  by (simp add: py_int_def str_def int_space_def decimal_value_ascii List.map_filter_def)

lemma big_out_of_range: "\<not> key_in_range 9223372036854775808"
  by (simp add: key_in_range_def)

lemma small_in_range: "key_in_range 1" "key_in_range 2"
  by (simp_all add: key_in_range_def)

lemma create_order_success:
  assumes "create_order r now s inp = Inr (s', ord)"
  shows "\<exists>k c. in_product_ids inp \<noteq> [] \<and> py_int (in_customer_id inp) = Some k \<and>
           objects_get (filter (\<lambda>c. customer_id c = k) (customers s)) = Found c \<and>
           length (filter (\<lambda>p. product_id p \<in> set (requested_keys (in_product_ids inp)))
                     (products s)) = length (in_product_ids inp) \<and>
           save_order s c
             (foldl (+) 0 (map product_price
                (filter (\<lambda>p. product_id p \<in> set (requested_keys (in_product_ids inp)))
                   (products s))))
             (case in_order_date inp of None \<Rightarrow> now | Some d \<Rightarrow> d)
             (filter (\<lambda>p. product_id p \<in> set (requested_keys (in_product_ids inp)))
                (products s)) = (s', ord)"
  using assms
  by (auto simp: create_order_def get_customer_def filter_products_in_def Let_def
      split: if_splits get_result.splits sum.splits option.splits)

lemma objects_get_Found_mem:
  "objects_get (filter P xs) = Found x \<Longrightarrow> x \<in> set xs \<and> P x"
proof -
  assume a: "objects_get (filter P xs) = Found x"
  then have "filter P xs = [x]"
    by (cases "filter P xs" rule: objects_get.cases) auto
  then have "x \<in> set (filter P xs)" by simp
  then show ?thesis by simp
qed

lemma create_order_eval:
  assumes "in_product_ids inp \<noteq> []"
    and "py_int (in_customer_id inp) = Some k" and "key_in_range k"
    and "objects_get (filter (\<lambda>c. customer_id c = k) (customers s)) = Found c"
    and "\<forall>i \<in> set (in_product_ids inp). i \<noteq> None \<longrightarrow> id_key i \<noteq> None"
    and "list_all key_in_range (requested_keys (in_product_ids inp))"
  shows "create_order r now s inp =
     (let ps = filter (\<lambda>p. product_id p \<in> set (requested_keys (in_product_ids inp)))
                 (products s) in
      if ps = []
      then Inl (GraphQLError (str ''No products found with the provided IDs.''))
      else if length ps \<noteq> length (in_product_ids inp)
      then Inl (GraphQLError (str ''Some product IDs are invalid or do not exist.''))
      else Inr (save_order s c (foldl (+) 0 (map product_price ps))
                  (case in_order_date inp of None \<Rightarrow> now | Some d \<Rightarrow> d) ps))"
proof -
  have "\<not> list_ex (\<lambda>i. i \<noteq> None \<and> id_key i = None) (in_product_ids inp)"
    using assms(5) by (auto simp: list_ex_iff)
  then have "filter_products_in s (in_product_ids inp) =
      Inr (filter (\<lambda>p. product_id p \<in> set (requested_keys (in_product_ids inp))) (products s))"
    using assms(6) by (simp add: filter_products_in_def)
  moreover have "get_customer r s (in_customer_id inp) = Inr (Found c)"
    using assms(2,3,4) by (simp add: get_customer_def)
  ultimately show ?thesis
    using assms(1) by (simp add: create_order_def Let_def)
qed

text \<open>
  For a request whose IDs all denote keys of the database, \<open>CreateOrder\<close> checks in the
  order the specification gives: the empty list, the unknown customer, no matching
  product, then the count mismatch, which holds exactly when an element is null, a key
  is requested twice or a key is no product's. An ID that \<^verbatim>\<open>int\<close> refuses, or a
  product key outside the 64-bit range, ends the call with an exception the mutation
  does not catch.
\<close>

lemma create_order_checks_in_order:
  assumes "wf_store s"
  shows
  "(in_product_ids inp = [] \<longrightarrow>
      create_order r now s inp =
        Inl (GraphQLError (str ''At least one product ID must be provided.''))) \<and>
   (in_product_ids inp \<noteq> [] \<and> py_int (in_customer_id inp) = None \<longrightarrow>
      create_order r now s inp = Inl Uncaught_ValueError) \<and>
   (in_product_ids inp \<noteq> [] \<and> py_int (in_customer_id inp) = Some k \<and> key_in_range k \<and>
    k \<notin> customer_id ` set (customers s) \<longrightarrow>
      create_order r now s inp = Inl (GraphQLError (str ''Invalid customer ID.''))) \<and>
   (in_product_ids inp \<noteq> [] \<and> py_int (in_customer_id inp) = Some k \<and> key_in_range k \<and>
    k \<in> customer_id ` set (customers s) \<longrightarrow>
      ((\<exists>i \<in> set (in_product_ids inp). i \<noteq> None \<and> id_key i = None) \<longrightarrow>
         create_order r now s inp = Inl Uncaught_ValueError) \<and>
      ((\<forall>i \<in> set (in_product_ids inp). i \<noteq> None \<longrightarrow> id_key i \<noteq> None) \<and>
       \<not> list_all key_in_range (requested_keys (in_product_ids inp)) \<longrightarrow>
         create_order r now s inp = Inl Uncaught_OverflowError) \<and>
      ((\<forall>i \<in> set (in_product_ids inp). i \<noteq> None \<longrightarrow> id_key i \<noteq> None) \<and>
       list_all key_in_range (requested_keys (in_product_ids inp)) \<longrightarrow>
         (set (requested_keys (in_product_ids inp)) \<inter> product_id ` set (products s) = {} \<longrightarrow>
            create_order r now s inp =
              Inl (GraphQLError (str ''No products found with the provided IDs.''))) \<and>
         (set (requested_keys (in_product_ids inp)) \<inter> product_id ` set (products s) \<noteq> {} \<and>
          (None \<in> set (in_product_ids inp) \<or>
           \<not> distinct (requested_keys (in_product_ids inp)) \<or>
           \<not> set (requested_keys (in_product_ids inp)) \<subseteq> product_id ` set (products s)) \<longrightarrow>
            create_order r now s inp =
              Inl (GraphQLError (str ''Some product IDs are invalid or do not exist.''))) \<and>
         (None \<notin> set (in_product_ids inp) \<and>
          distinct (requested_keys (in_product_ids inp)) \<and>
          set (requested_keys (in_product_ids inp)) \<subseteq> product_id ` set (products s) \<longrightarrow>
            (\<exists>s' ord. create_order r now s inp = Inr (s', ord)))))"
proof -
  let ?ids = "in_product_ids inp"
  let ?keys = "requested_keys ?ids"
  let ?ps = "filter (\<lambda>p. product_id p \<in> set ?keys) (products s)"
  have dc: "distinct (map customer_id (customers s))"
    and dp: "distinct (map product_id (products s))"
    using assms by (simp_all add: wf_store_def)
  have p1: "?ids = [] \<longrightarrow>
      create_order r now s inp =
        Inl (GraphQLError (str ''At least one product ID must be provided.''))"
    by (simp add: create_order_def)
  have p2: "?ids \<noteq> [] \<and> py_int (in_customer_id inp) = None \<longrightarrow>
      create_order r now s inp = Inl Uncaught_ValueError"
    by (simp add: create_order_def get_customer_def)
  have p3: "?ids \<noteq> [] \<and> py_int (in_customer_id inp) = Some k \<and> key_in_range k \<and>
    k \<notin> customer_id ` set (customers s) \<longrightarrow>
      create_order r now s inp = Inl (GraphQLError (str ''Invalid customer ID.''))"
    using objects_get_missing[of k customer_id "customers s"]
    by (simp add: create_order_def get_customer_def)
  have p4: "?ids \<noteq> [] \<and> py_int (in_customer_id inp) = Some k \<and> key_in_range k \<and>
    k \<in> customer_id ` set (customers s) \<longrightarrow>
      ((\<exists>i \<in> set ?ids. i \<noteq> None \<and> id_key i = None) \<longrightarrow>
         create_order r now s inp = Inl Uncaught_ValueError) \<and>
      ((\<forall>i \<in> set ?ids. i \<noteq> None \<longrightarrow> id_key i \<noteq> None) \<and>
       \<not> list_all key_in_range ?keys \<longrightarrow>
         create_order r now s inp = Inl Uncaught_OverflowError) \<and>
      ((\<forall>i \<in> set ?ids. i \<noteq> None \<longrightarrow> id_key i \<noteq> None) \<and>
       list_all key_in_range ?keys \<longrightarrow>
         (set ?keys \<inter> product_id ` set (products s) = {} \<longrightarrow>
            create_order r now s inp =
              Inl (GraphQLError (str ''No products found with the provided IDs.''))) \<and>
         (set ?keys \<inter> product_id ` set (products s) \<noteq> {} \<and>
          (None \<in> set ?ids \<or> \<not> distinct ?keys \<or>
           \<not> set ?keys \<subseteq> product_id ` set (products s)) \<longrightarrow>
            create_order r now s inp =
              Inl (GraphQLError (str ''Some product IDs are invalid or do not exist.''))) \<and>
         (None \<notin> set ?ids \<and> distinct ?keys \<and>
          set ?keys \<subseteq> product_id ` set (products s) \<longrightarrow>
            (\<exists>s' ord. create_order r now s inp = Inr (s', ord))))"
  proof
    assume h: "?ids \<noteq> [] \<and> py_int (in_customer_id inp) = Some k \<and> key_in_range k \<and>
      k \<in> customer_id ` set (customers s)"
    then obtain c where c: "c \<in> set (customers s)" "customer_id c = k" by auto
    have "objects_get (filter (\<lambda>y. customer_id y = customer_id c) (customers s)) = Found c"
      using dc c(1) by (rule objects_get_found)
    with c(2) have found: "objects_get (filter (\<lambda>c. customer_id c = k) (customers s)) = Found c"
      by simp
    have gc: "get_customer r s (in_customer_id inp) = Inr (Found c)"
      using h found by (simp add: get_customer_def)
    have q1: "(\<exists>i \<in> set ?ids. i \<noteq> None \<and> id_key i = None) \<longrightarrow>
         create_order r now s inp = Inl Uncaught_ValueError"
    proof
      assume "\<exists>i \<in> set ?ids. i \<noteq> None \<and> id_key i = None"
      then have "list_ex (\<lambda>i. i \<noteq> None \<and> id_key i = None) ?ids"
        by (simp add: list_ex_iff)
      then have "filter_products_in s ?ids = Inl Uncaught_ValueError"
        by (simp add: filter_products_in_def)
      with h gc show "create_order r now s inp = Inl Uncaught_ValueError"
        by (simp add: create_order_def)
    qed
    have q2: "(\<forall>i \<in> set ?ids. i \<noteq> None \<longrightarrow> id_key i \<noteq> None) \<and>
       \<not> list_all key_in_range ?keys \<longrightarrow>
         create_order r now s inp = Inl Uncaught_OverflowError"
    proof
      assume a: "(\<forall>i \<in> set ?ids. i \<noteq> None \<longrightarrow> id_key i \<noteq> None) \<and>
        \<not> list_all key_in_range ?keys"
      then have "\<not> list_ex (\<lambda>i. i \<noteq> None \<and> id_key i = None) ?ids"
        by (auto simp: list_ex_iff)
      with a have "filter_products_in s ?ids = Inl Uncaught_OverflowError"
        by (simp add: filter_products_in_def)
      with h gc show "create_order r now s inp = Inl Uncaught_OverflowError"
        by (simp add: create_order_def)
    qed
    have q3: "(\<forall>i \<in> set ?ids. i \<noteq> None \<longrightarrow> id_key i \<noteq> None) \<and>
       list_all key_in_range ?keys \<longrightarrow>
         (set ?keys \<inter> product_id ` set (products s) = {} \<longrightarrow>
            create_order r now s inp =
              Inl (GraphQLError (str ''No products found with the provided IDs.''))) \<and>
         (set ?keys \<inter> product_id ` set (products s) \<noteq> {} \<and>
          (None \<in> set ?ids \<or> \<not> distinct ?keys \<or>
           \<not> set ?keys \<subseteq> product_id ` set (products s)) \<longrightarrow>
            create_order r now s inp =
              Inl (GraphQLError (str ''Some product IDs are invalid or do not exist.''))) \<and>
         (None \<notin> set ?ids \<and> distinct ?keys \<and>
          set ?keys \<subseteq> product_id ` set (products s) \<longrightarrow>
            (\<exists>s' ord. create_order r now s inp = Inr (s', ord)))"
    proof
      assume wfi: "(\<forall>i \<in> set ?ids. i \<noteq> None \<longrightarrow> id_key i \<noteq> None) \<and>
        list_all key_in_range ?keys"
      have ev: "create_order r now s inp =
         (let ps = ?ps in
          if ps = []
          then Inl (GraphQLError (str ''No products found with the provided IDs.''))
          else if length ps \<noteq> length ?ids
          then Inl (GraphQLError (str ''Some product IDs are invalid or do not exist.''))
          else Inr (save_order s c (foldl (+) 0 (map product_price ps))
                      (case in_order_date inp of None \<Rightarrow> now | Some d \<Rightarrow> d) ps))"
        using h found wfi by (intro create_order_eval) simp_all
      have emp: "?ps = [] \<longleftrightarrow> set ?keys \<inter> product_id ` set (products s) = {}"
        by (rule resolved_empty_iff)
      have nonnull: "(\<forall>i \<in> set ?ids. id_key i \<noteq> None) \<longleftrightarrow> None \<notin> set ?ids"
        using wfi by (auto simp: id_key_def)
      have len: "length ?ps = length ?ids \<longleftrightarrow>
          None \<notin> set ?ids \<and> distinct ?keys \<and> set ?keys \<subseteq> product_id ` set (products s)"
        using resolved_count_iff[OF dp, of ?ids] nonnull by simp
      have r1: "set ?keys \<inter> product_id ` set (products s) = {} \<longrightarrow>
            create_order r now s inp =
              Inl (GraphQLError (str ''No products found with the provided IDs.''))"
        using ev emp by (simp add: Let_def)
      have r2: "set ?keys \<inter> product_id ` set (products s) \<noteq> {} \<and>
          (None \<in> set ?ids \<or> \<not> distinct ?keys \<or>
           \<not> set ?keys \<subseteq> product_id ` set (products s)) \<longrightarrow>
            create_order r now s inp =
              Inl (GraphQLError (str ''Some product IDs are invalid or do not exist.''))"
      proof
        assume a: "set ?keys \<inter> product_id ` set (products s) \<noteq> {} \<and>
          (None \<in> set ?ids \<or> \<not> distinct ?keys \<or>
           \<not> set ?keys \<subseteq> product_id ` set (products s))"
        with emp have ne: "?ps \<noteq> []" by simp
        from a len have nl: "length ?ps \<noteq> length ?ids" by blast
        show "create_order r now s inp =
              Inl (GraphQLError (str ''Some product IDs are invalid or do not exist.''))"
          using ev ne nl by (simp add: Let_def)
      qed
      have r3: "None \<notin> set ?ids \<and> distinct ?keys \<and>
          set ?keys \<subseteq> product_id ` set (products s) \<longrightarrow>
            (\<exists>s' ord. create_order r now s inp = Inr (s', ord))"
      proof
        assume a: "None \<notin> set ?ids \<and> distinct ?keys \<and>
          set ?keys \<subseteq> product_id ` set (products s)"
        with len have nl: "length ?ps = length ?ids" by blast
        with h have ne: "?ps \<noteq> []" by auto
        have "create_order r now s inp =
            Inr (save_order s c (foldl (+) 0 (map product_price ?ps))
                      (case in_order_date inp of None \<Rightarrow> now | Some d \<Rightarrow> d) ?ps)"
          using ev ne nl by (simp add: Let_def)
        then show "\<exists>s' ord. create_order r now s inp = Inr (s', ord)"
          by (metis surj_pair)
      qed
      show "(set ?keys \<inter> product_id ` set (products s) = {} \<longrightarrow>
            create_order r now s inp =
              Inl (GraphQLError (str ''No products found with the provided IDs.''))) \<and>
         (set ?keys \<inter> product_id ` set (products s) \<noteq> {} \<and>
          (None \<in> set ?ids \<or> \<not> distinct ?keys \<or>
           \<not> set ?keys \<subseteq> product_id ` set (products s)) \<longrightarrow>
            create_order r now s inp =
              Inl (GraphQLError (str ''Some product IDs are invalid or do not exist.''))) \<and>
         (None \<notin> set ?ids \<and> distinct ?keys \<and>
          set ?keys \<subseteq> product_id ` set (products s) \<longrightarrow>
            (\<exists>s' ord. create_order r now s inp = Inr (s', ord)))"
        by (rule conjI[OF r1 conjI[OF r2 r3]])
    qed
    show "((\<exists>i \<in> set ?ids. i \<noteq> None \<and> id_key i = None) \<longrightarrow>
         create_order r now s inp = Inl Uncaught_ValueError) \<and>
      ((\<forall>i \<in> set ?ids. i \<noteq> None \<longrightarrow> id_key i \<noteq> None) \<and>
       \<not> list_all key_in_range ?keys \<longrightarrow>
         create_order r now s inp = Inl Uncaught_OverflowError) \<and>
      ((\<forall>i \<in> set ?ids. i \<noteq> None \<longrightarrow> id_key i \<noteq> None) \<and>
       list_all key_in_range ?keys \<longrightarrow>
         (set ?keys \<inter> product_id ` set (products s) = {} \<longrightarrow>
            create_order r now s inp =
              Inl (GraphQLError (str ''No products found with the provided IDs.''))) \<and>
         (set ?keys \<inter> product_id ` set (products s) \<noteq> {} \<and>
          (None \<in> set ?ids \<or> \<not> distinct ?keys \<or>
           \<not> set ?keys \<subseteq> product_id ` set (products s)) \<longrightarrow>
            create_order r now s inp =
              Inl (GraphQLError (str ''Some product IDs are invalid or do not exist.''))) \<and>
         (None \<notin> set ?ids \<and> distinct ?keys \<and>
          set ?keys \<subseteq> product_id ` set (products s) \<longrightarrow>
            (\<exists>s' ord. create_order r now s inp = Inr (s', ord))))"
      by (rule conjI[OF q1 conjI[OF q2 q3]])
  qed
  show ?thesis
    by (rule conjI[OF p1 conjI[OF p2 conjI[OF p3 p4]]])
qed

lemma create_order_customer_key_out_of_range:
  "in_product_ids inp \<noteq> [] \<Longrightarrow> py_int (in_customer_id inp) = Some k \<Longrightarrow> \<not> key_in_range k \<Longrightarrow>
   create_order r now s inp =
     (if r then Inl Uncaught_OverflowError else Inl (GraphQLError (str ''Invalid customer ID.'')))"
  by (simp add: create_order_def get_customer_def)

text \<open>
  Claim C2: \<open>CreateOrder\<close> fails with the unknown-customer error when \<open>customerId\<close>
  resolves to no customer, and with the no-products or the count-mismatch error when
  product ids do not resolve. \<open>create_order_checks_in_order\<close> gives this for IDs that
  denote keys, the request \<open>[i, i]\<close> included. But the customer ID \<^verbatim>\<open>abc\<close> resolves
  to no customer, and the call ends with the \<^verbatim>\<open>ValueError\<close> of the lookup, which
  only catches \<^verbatim>\<open>DoesNotExist\<close>; the product id \<^verbatim>\<open>abc\<close> ends it the same way, and
  the product id \<^verbatim>\<open>9223372036854775808\<close> with \<^verbatim>\<open>OverflowError\<close>.
\<close>

theorem create_order_malformed_id_uncaught:
  "create_order r 7
     \<lparr>customers = [\<lparr>customer_id = 1, customer_name = str ''A'', customer_email = str ''a@x.com'',
                     customer_phone = None, customer_created_at = 3\<rparr>],
      products = [\<lparr>product_id = 1, product_name = str ''Pen'', product_price = 5 / 2,
                    product_stock = 4\<rparr>],
      orders = []\<rparr>
     \<lparr>in_customer_id = str ''abc'', in_product_ids = [Some (str ''1'')], in_order_date = None\<rparr> =
   Inl Uncaught_ValueError \<and>
   create_order r 7
     \<lparr>customers = [\<lparr>customer_id = 1, customer_name = str ''A'', customer_email = str ''a@x.com'',
                     customer_phone = None, customer_created_at = 3\<rparr>],
      products = [\<lparr>product_id = 1, product_name = str ''Pen'', product_price = 5 / 2,
                    product_stock = 4\<rparr>],
      orders = []\<rparr>
     \<lparr>in_customer_id = str ''1'', in_product_ids = [Some (str ''abc'')], in_order_date = None\<rparr> =
   Inl Uncaught_ValueError \<and>
   create_order r 7
     \<lparr>customers = [\<lparr>customer_id = 1, customer_name = str ''A'', customer_email = str ''a@x.com'',
                     customer_phone = None, customer_created_at = 3\<rparr>],
      products = [\<lparr>product_id = 1, product_name = str ''Pen'', product_price = 5 / 2,
                    product_stock = 4\<rparr>],
      orders = []\<rparr>
     \<lparr>in_customer_id = str ''1'', in_product_ids = [Some (str ''9223372036854775808'')],
        in_order_date = None\<rparr> =
   Inl Uncaught_OverflowError"
  using py_int_1 py_int_abc py_int_big big_out_of_range small_in_range
  by (simp add: create_order_def get_customer_def filter_products_in_def id_key_def
      requested_keys_def List.map_filter_def)

text \<open>
  Claim C1: when \<open>CreateOrder\<close> succeeds, every requested id denotes a key, and the
  order's \<open>total_amount\<close> is the sum of the prices the resolved products have in the
  store at the call, which is the sum over the requested ids of the current price of
  the product with that id; its \<open>order_date\<close> is the supplied one, or the clock reading
  when none is supplied; and the order, with its product associations, is the one row
  appended to the store.
\<close>

theorem create_order_total_and_date:
  assumes "wf_store s" and "create_order r now s inp = Inr (s', ord)"
  shows
  "map id_key (in_product_ids inp) = map Some (requested_keys (in_product_ids inp)) \<and>
   order_total_amount ord =
     sum_list (map product_price
       (filter (\<lambda>p. product_id p \<in> set (requested_keys (in_product_ids inp))) (products s))) \<and>
   ((\<forall>p \<in> set (products s). price_of (product_id p) = product_price p) \<longrightarrow>
      order_total_amount ord = sum_list (map price_of (requested_keys (in_product_ids inp)))) \<and>
   order_order_date ord = (case in_order_date inp of None \<Rightarrow> now | Some d \<Rightarrow> d) \<and>
   py_int (in_customer_id inp) = Some (order_customer ord) \<and>
   set (order_product ord) = set (requested_keys (in_product_ids inp)) \<and>
   length (order_product ord) = length (in_product_ids inp) \<and>
   orders s' = orders s @ [ord] \<and> customers s' = customers s \<and> products s' = products s"
proof -
  let ?ids = "in_product_ids inp"
  let ?keys = "requested_keys ?ids"
  let ?ps = "filter (\<lambda>p. product_id p \<in> set ?keys) (products s)"
  have dp: "distinct (map product_id (products s))"
    using assms(1) by (simp add: wf_store_def)
  from create_order_success[OF assms(2)] obtain k c where
    k: "py_int (in_customer_id inp) = Some k"
    and c: "objects_get (filter (\<lambda>c. customer_id c = k) (customers s)) = Found c"
    and len: "length ?ps = length ?ids"
    and sv: "save_order s c (foldl (+) 0 (map product_price ?ps))
               (case in_order_date inp of None \<Rightarrow> now | Some d \<Rightarrow> d) ?ps = (s', ord)"
    by blast
  note st = save_order_store[OF sv]
  have total: "order_total_amount ord = sum_list (map product_price ?ps)"
    using st by (simp add: foldl_plus_sum_list)
  from len have ids: "\<forall>i \<in> set ?ids. id_key i \<noteq> None" "distinct ?keys"
    "set ?keys \<subseteq> product_id ` set (products s)"
    using resolved_count_iff[OF dp, of ?ids] by simp_all
  have all: "map id_key ?ids = map Some ?keys"
    unfolding requested_keys_def using ids(1) by (rule map_filter_full_map)
  have dps: "distinct (map product_id ?ps)"
    using dp by (rule distinct_map_filter)
  have sps: "set (map product_id ?ps) = set ?keys"
    using ids(3) by auto
  have by_id: "order_total_amount ord = sum_list (map price_of ?keys)"
    if h: "\<forall>p \<in> set (products s). price_of (product_id p) = product_price p"
  proof -
    have "product_price p = (price_of \<circ> product_id) p" if "p \<in> set ?ps" for p
      using h that by simp
    then have "map product_price ?ps = map (price_of \<circ> product_id) ?ps"
      by (intro map_cong refl)
    then have "map product_price ?ps = map price_of (map product_id ?ps)"
      by (simp only: map_map)
    then have "sum_list (map product_price ?ps) = sum_list (map price_of (map product_id ?ps))"
      by (rule arg_cong[where f = sum_list])
    also have "\<dots> = sum price_of (set (map product_id ?ps))"
      using dps by (rule sum_list_distinct_conv_sum_set)
    also have "\<dots> = sum price_of (set ?keys)"
      by (simp only: sps)
    also have "\<dots> = sum_list (map price_of ?keys)"
      using ids(2) by (simp add: sum_list_distinct_conv_sum_set)
    finally show ?thesis using total by simp
  qed
  have cust: "py_int (in_customer_id inp) = Some (order_customer ord)"
    using st k objects_get_Found_mem[OF c] by simp
  have prod: "set (order_product ord) = set ?keys" "length (order_product ord) = length ?ids"
    using st sps len by simp_all
  show ?thesis
    using all total by_id st cust prod by simp
qed

theorem create_order_total_and_date_witness:
  "wf_store
     \<lparr>customers = [\<lparr>customer_id = 1, customer_name = str ''A'', customer_email = str ''a@x.com'',
                     customer_phone = None, customer_created_at = 3\<rparr>],
      products = [\<lparr>product_id = 1, product_name = str ''Pen'', product_price = 5 / 2,
                    product_stock = 4\<rparr>,
                  \<lparr>product_id = 2, product_name = str ''Ink'', product_price = 4,
                    product_stock = 40\<rparr>],
      orders = []\<rparr> \<and>
   create_order True 7
     \<lparr>customers = [\<lparr>customer_id = 1, customer_name = str ''A'', customer_email = str ''a@x.com'',
                     customer_phone = None, customer_created_at = 3\<rparr>],
      products = [\<lparr>product_id = 1, product_name = str ''Pen'', product_price = 5 / 2,
                    product_stock = 4\<rparr>,
                  \<lparr>product_id = 2, product_name = str ''Ink'', product_price = 4,
                    product_stock = 40\<rparr>],
      orders = []\<rparr>
     \<lparr>in_customer_id = str ''1'', in_product_ids = [Some (str ''2''), Some (str ''1'')],
        in_order_date = None\<rparr> =
   Inr (\<lparr>customers = [\<lparr>customer_id = 1, customer_name = str ''A'', customer_email = str ''a@x.com'',
                     customer_phone = None, customer_created_at = 3\<rparr>],
         products = [\<lparr>product_id = 1, product_name = str ''Pen'', product_price = 5 / 2,
                    product_stock = 4\<rparr>,
                  \<lparr>product_id = 2, product_name = str ''Ink'', product_price = 4,
                    product_stock = 40\<rparr>],
         orders = [\<lparr>order_id = 1, order_customer = 1, order_total_amount = 13 / 2,
                     order_order_date = 7, order_product = [1, 2]\<rparr>]\<rparr>,
        \<lparr>order_id = 1, order_customer = 1, order_total_amount = 13 / 2,
           order_order_date = 7, order_product = [1, 2]\<rparr>) \<and>
   order_total_amount
     \<lparr>order_id = 1, order_customer = 1, order_total_amount = 13 / 2,
        order_order_date = 7, order_product = [1, 2]\<rparr> =
   sum_list (map product_price
     [\<lparr>product_id = 1, product_name = str ''Pen'', product_price = 5 / 2, product_stock = 4\<rparr>,
      \<lparr>product_id = 2, product_name = str ''Ink'', product_price = 4, product_stock = 40\<rparr>])"
proof -
  have wf: "wf_store
     \<lparr>customers = [\<lparr>customer_id = 1, customer_name = str ''A'', customer_email = str ''a@x.com'',
                     customer_phone = None, customer_created_at = 3\<rparr>],
      products = [\<lparr>product_id = 1, product_name = str ''Pen'', product_price = 5 / 2,
                    product_stock = 4\<rparr>,
                  \<lparr>product_id = 2, product_name = str ''Ink'', product_price = 4,
                    product_stock = 40\<rparr>],
      orders = []\<rparr>"
    by (simp add: wf_store_def)
  have run: "create_order True 7
     \<lparr>customers = [\<lparr>customer_id = 1, customer_name = str ''A'', customer_email = str ''a@x.com'',
                     customer_phone = None, customer_created_at = 3\<rparr>],
      products = [\<lparr>product_id = 1, product_name = str ''Pen'', product_price = 5 / 2,
                    product_stock = 4\<rparr>,
                  \<lparr>product_id = 2, product_name = str ''Ink'', product_price = 4,
                    product_stock = 40\<rparr>],
      orders = []\<rparr>
     \<lparr>in_customer_id = str ''1'', in_product_ids = [Some (str ''2''), Some (str ''1'')],
        in_order_date = None\<rparr> =
   Inr (\<lparr>customers = [\<lparr>customer_id = 1, customer_name = str ''A'', customer_email = str ''a@x.com'',
                     customer_phone = None, customer_created_at = 3\<rparr>],
         products = [\<lparr>product_id = 1, product_name = str ''Pen'', product_price = 5 / 2,
                    product_stock = 4\<rparr>,
                  \<lparr>product_id = 2, product_name = str ''Ink'', product_price = 4,
                    product_stock = 40\<rparr>],
         orders = [\<lparr>order_id = 1, order_customer = 1, order_total_amount = 13 / 2,
                     order_order_date = 7, order_product = [1, 2]\<rparr>]\<rparr>,
        \<lparr>order_id = 1, order_customer = 1, order_total_amount = 13 / 2,
           order_order_date = 7, order_product = [1, 2]\<rparr>)"
    using py_int_1 py_int_2 small_in_range
    by (simp add: create_order_def get_customer_def filter_products_in_def id_key_def
        requested_keys_def List.map_filter_def save_order_def Let_def next_id_def)
  show ?thesis
    using wf run create_order_total_and_date[OF wf run] py_int_1 py_int_2
    by (simp add: id_key_def requested_keys_def List.map_filter_def)
qed

text \<open>
  Claim C6: an order's \<open>total_amount\<close> is fixed when the order is created. Whatever the
  products table is replaced by afterwards (any price changed), fetching the order by
  its key gives the row \<open>CreateOrder\<close> returned, and the resolver answers the sum of
  the prices the resolved products had at the creating call.
\<close>

theorem order_total_amount_frozen:
  assumes "create_order r now s inp = Inr (s', ord)"
  shows
  "objects_get (filter (\<lambda>x. order_id x = order_id ord) (orders (s'\<lparr>products := ps'\<rparr>))) =
     Found ord \<and>
   resolve_total_amount ord =
     sum_list (map product_price
       (filter (\<lambda>p. product_id p \<in> set (requested_keys (in_product_ids inp))) (products s)))"
proof -
  let ?ps = "filter (\<lambda>p. product_id p \<in> set (requested_keys (in_product_ids inp))) (products s)"
  from create_order_success[OF assms] obtain c where
    sv: "save_order s c (foldl (+) 0 (map product_price ?ps))
               (case in_order_date inp of None \<Rightarrow> now | Some d \<Rightarrow> d) ?ps = (s', ord)"
    by blast
  note st = save_order_store[OF sv]
  have "order_id ord \<notin> set (map order_id (orders s))"
    using st next_id_fresh[of "map order_id (orders s)"] by simp
  then have "\<forall>x \<in> set (orders s). order_id x \<noteq> order_id ord"
    by (metis image_eqI set_map)
  then have "filter (\<lambda>x. order_id x = order_id ord) (orders s) = []"
    by (simp add: filter_empty_conv)
  then have "filter (\<lambda>x. order_id x = order_id ord) (orders (s'\<lparr>products := ps'\<rparr>)) = [ord]"
    using st by simp
  moreover have "resolve_total_amount ord = sum_list (map product_price ?ps)"
    using st by (simp add: resolve_total_amount_def foldl_plus_sum_list)
  ultimately show ?thesis by simp
qed

theorem order_total_amount_frozen_witness:
  "create_order True 7
     \<lparr>customers = [\<lparr>customer_id = 1, customer_name = str ''A'', customer_email = str ''a@x.com'',
                     customer_phone = None, customer_created_at = 3\<rparr>],
      products = [\<lparr>product_id = 1, product_name = str ''Pen'', product_price = 5 / 2,
                    product_stock = 4\<rparr>],
      orders = []\<rparr>
     \<lparr>in_customer_id = str ''1'', in_product_ids = [Some (str ''1'')], in_order_date = Some 5\<rparr> =
   Inr (\<lparr>customers = [\<lparr>customer_id = 1, customer_name = str ''A'', customer_email = str ''a@x.com'',
                     customer_phone = None, customer_created_at = 3\<rparr>],
         products = [\<lparr>product_id = 1, product_name = str ''Pen'', product_price = 5 / 2,
                    product_stock = 4\<rparr>],
         orders = [\<lparr>order_id = 1, order_customer = 1, order_total_amount = 5 / 2,
                     order_order_date = 5, order_product = [1]\<rparr>]\<rparr>,
        \<lparr>order_id = 1, order_customer = 1, order_total_amount = 5 / 2,
           order_order_date = 5, order_product = [1]\<rparr>) \<and>
   objects_get (filter (\<lambda>x. order_id x = 1)
     (orders \<lparr>customers = [\<lparr>customer_id = 1, customer_name = str ''A'',
                   customer_email = str ''a@x.com'', customer_phone = None,
                   customer_created_at = 3\<rparr>],
         products = [\<lparr>product_id = 1, product_name = str ''Pen'', product_price = 90,
                    product_stock = 4\<rparr>],
         orders = [\<lparr>order_id = 1, order_customer = 1, order_total_amount = 5 / 2,
                     order_order_date = 5, order_product = [1]\<rparr>]\<rparr>)) =
   Found \<lparr>order_id = 1, order_customer = 1, order_total_amount = 5 / 2,
           order_order_date = 5, order_product = [1]\<rparr> \<and>
   resolve_total_amount
     \<lparr>order_id = 1, order_customer = 1, order_total_amount = 5 / 2,
        order_order_date = 5, order_product = [1]\<rparr> = 5 / 2"
proof -
  have run: "create_order True 7
     \<lparr>customers = [\<lparr>customer_id = 1, customer_name = str ''A'', customer_email = str ''a@x.com'',
                     customer_phone = None, customer_created_at = 3\<rparr>],
      products = [\<lparr>product_id = 1, product_name = str ''Pen'', product_price = 5 / 2,
                    product_stock = 4\<rparr>],
      orders = []\<rparr>
     \<lparr>in_customer_id = str ''1'', in_product_ids = [Some (str ''1'')], in_order_date = Some 5\<rparr> =
   Inr (\<lparr>customers = [\<lparr>customer_id = 1, customer_name = str ''A'', customer_email = str ''a@x.com'',
                     customer_phone = None, customer_created_at = 3\<rparr>],
         products = [\<lparr>product_id = 1, product_name = str ''Pen'', product_price = 5 / 2,
                    product_stock = 4\<rparr>],
         orders = [\<lparr>order_id = 1, order_customer = 1, order_total_amount = 5 / 2,
                     order_order_date = 5, order_product = [1]\<rparr>]\<rparr>,
        \<lparr>order_id = 1, order_customer = 1, order_total_amount = 5 / 2,
           order_order_date = 5, order_product = [1]\<rparr>)"
    using py_int_1 small_in_range
    by (simp add: create_order_def get_customer_def filter_products_in_def id_key_def
        requested_keys_def List.map_filter_def save_order_def Let_def next_id_def)
  show ?thesis
    using run order_total_amount_frozen[OF run,
        where ps' = "[\<lparr>product_id = 1, product_name = str ''Pen'', product_price = 90,
                    product_stock = 4\<rparr>]"] py_int_1
    by (simp add: id_key_def requested_keys_def List.map_filter_def)
qed

section \<open>Primary keys stay unique\<close>

text \<open>
  The stores the four mutations build from the empty store satisfy \<open>wf_store\<close>: it holds
  of the empty store and every mutation preserves it.
\<close>

lemma wf_store_empty: "wf_store empty_store"
  by (simp add: wf_store_def empty_store_def)

lemma wf_create_customer:
  "wf_store s \<Longrightarrow> create_customer now s inp = Inr (s', c, m) \<Longrightarrow> wf_store s'"
  by (auto simp: create_customer_def split: option.splits if_splits prod.splits
      dest: wf_save_customer)

lemma wf_bulk_loop:
  "wf_store s \<Longrightarrow> bulk_loop now xs (s, cs, es) = (s', cs', es') \<Longrightarrow> wf_store s'"
proof (induction xs arbitrary: s cs es)
  case Nil
  then show ?case by simp
next
  case (Cons x xs)
  show ?case
  proof (cases "bulk_item now s x")
    case (Inl e)
    with Cons.prems(2) have "bulk_loop now xs (s, cs, es @ [e]) = (s', cs', es')" by simp
    with Cons.IH[OF Cons.prems(1)] show ?thesis by blast
  next
    case (Inr r)
    obtain s1 c where r: "r = (s1, c)" by (cases r)
    have "save_customer now s (in_name x) (in_email x) (in_phone x) = (s1, c)"
      using Inr r by (auto simp: bulk_item_def Let_def split: if_splits)
    with Cons.prems(1) have wf1: "wf_store s1" by (rule wf_save_customer)
    from Cons.prems(2) Inr r have "bulk_loop now xs (s1, cs @ [c], es) = (s', cs', es')" by simp
    with Cons.IH[OF wf1] show ?thesis by blast
  qed
qed

lemma wf_bulk_create_customers:
  "wf_store s \<Longrightarrow> bulk_create_customers now s input = (s', cs, es) \<Longrightarrow> wf_store s'"
  unfolding bulk_create_customers_def by (rule wf_bulk_loop)

lemma wf_create_product:
  "wf_store s \<Longrightarrow> create_product s inp = Inr (s', p, m) \<Longrightarrow> wf_store s'"
  using next_id_fresh[of "map product_id (products s)"]
  by (auto simp: create_product_def save_product_def Let_def wf_store_def split: if_splits)

lemma wf_create_order:
  assumes "wf_store s" and "create_order r now s inp = Inr (s', ord)"
  shows "wf_store s'"
proof -
  from create_order_success[OF assms(2)] obtain c amt d ps where
    "save_order s c amt d ps = (s', ord)" by blast
  then show ?thesis
    using assms(1) next_id_fresh[of "map order_id (orders s)"]
    by (auto simp: save_order_def Let_def wf_store_def)
qed

section \<open>The filters\<close>

lemma product_filter_qs_low_stock:
  "product_filter_qs icontains f qs =
     method_filter filter_low_stock (pf_low_stock f)
       (product_filter_qs icontains (f\<lparr>pf_low_stock := None\<rparr>) qs)"
  by (simp add: product_filter_qs_def method_filter_def)

text \<open>
  Claim C9: with \<open>lowStock = true\<close> and every other product filter unset, the result is
  exactly the products whose stock is below 10; with \<open>lowStock\<close> false or absent and the
  others unset, every product is kept. Whatever the other filters are, \<open>lowStock = true\<close>
  keeps exactly the rows with stock below 10 of what they select, and \<open>lowStock = false\<close>
  selects what an absent \<open>lowStock\<close> selects.
\<close>

theorem low_stock_filter:
  "product_filter_qs icontains
     \<lparr>pf_name = None, pf_price_gte = None, pf_price_lte = None, pf_stock_gte = None,
      pf_stock_lte = None, pf_low_stock = Some True\<rparr> qs =
     filter (\<lambda>p. product_stock p < 10) qs \<and>
   set (product_filter_qs icontains
     \<lparr>pf_name = None, pf_price_gte = None, pf_price_lte = None, pf_stock_gte = None,
      pf_stock_lte = None, pf_low_stock = Some True\<rparr> qs) =
     {p \<in> set qs. product_stock p < 10} \<and>
   product_filter_qs icontains
     \<lparr>pf_name = None, pf_price_gte = None, pf_price_lte = None, pf_stock_gte = None,
      pf_stock_lte = None, pf_low_stock = Some False\<rparr> qs = qs \<and>
   product_filter_qs icontains
     \<lparr>pf_name = None, pf_price_gte = None, pf_price_lte = None, pf_stock_gte = None,
      pf_stock_lte = None, pf_low_stock = None\<rparr> qs = qs \<and>
   product_filter_qs icontains (f\<lparr>pf_low_stock := Some True\<rparr>) qs =
     filter (\<lambda>p. product_stock p < 10)
       (product_filter_qs icontains (f\<lparr>pf_low_stock := None\<rparr>) qs) \<and>
   product_filter_qs icontains (f\<lparr>pf_low_stock := Some False\<rparr>) qs =
     product_filter_qs icontains (f\<lparr>pf_low_stock := None\<rparr>) qs"
proof -
  have unset: "product_filter_qs icontains
     \<lparr>pf_name = None, pf_price_gte = None, pf_price_lte = None, pf_stock_gte = None,
      pf_stock_lte = None, pf_low_stock = v\<rparr> qs = method_filter filter_low_stock v qs" for v
    by (simp add: product_filter_qs_def number_filter_def char_filter_def)
  have t: "method_filter filter_low_stock (Some True) xs = filter (\<lambda>p. product_stock p < 10) xs"
    and f: "method_filter filter_low_stock (Some False) xs = xs"
    and n: "method_filter filter_low_stock None xs = xs" for xs
    by (simp_all add: method_filter_def filter_low_stock_def)
  have g1: "product_filter_qs icontains (f\<lparr>pf_low_stock := Some True\<rparr>) qs =
     filter (\<lambda>p. product_stock p < 10)
       (product_filter_qs icontains (f\<lparr>pf_low_stock := None\<rparr>) qs)"
    using product_filter_qs_low_stock[of icontains "f\<lparr>pf_low_stock := Some True\<rparr>" qs]
    by (simp add: t)
  have g2: "product_filter_qs icontains (f\<lparr>pf_low_stock := Some False\<rparr>) qs =
     product_filter_qs icontains (f\<lparr>pf_low_stock := None\<rparr>) qs"
    using product_filter_qs_low_stock[of icontains "f\<lparr>pf_low_stock := Some False\<rparr>" qs]
    by (simp add: f)
  show ?thesis
    unfolding unset t f n using g1 g2 by auto
qed

theorem low_stock_filter_witness:
  "product_filter_qs (\<lambda>v n. True)
     \<lparr>pf_name = None, pf_price_gte = None, pf_price_lte = None, pf_stock_gte = None,
      pf_stock_lte = None, pf_low_stock = Some True\<rparr>
     [\<lparr>product_id = 1, product_name = str ''Pen'', product_price = 5 / 2, product_stock = 9\<rparr>,
      \<lparr>product_id = 2, product_name = str ''Ink'', product_price = 4, product_stock = 10\<rparr>] =
   [\<lparr>product_id = 1, product_name = str ''Pen'', product_price = 5 / 2, product_stock = 9\<rparr>]"
  using low_stock_filter[where icontains = "\<lambda>v n. True" and qs =
     "[\<lparr>product_id = 1, product_name = str ''Pen'', product_price = 5 / 2, product_stock = 9\<rparr>,
       \<lparr>product_id = 2, product_name = str ''Ink'', product_price = 4, product_stock = 10\<rparr>]"]
  by simp

text \<open>
  Claim C10: in the order filter a \<open>productId\<close> of 0, like an absent one, leaves every
  collection of orders unchanged, although a lookup of product 0 would select nothing
  when no order holds a product with key 0; every other value keeps exactly the orders
  whose products include that key.
\<close>

theorem product_id_zero_is_no_constraint:
  "filter_product_id qs 0 = qs \<and>
   order_filter_product_id (Some 0) qs = qs \<and>
   order_filter_product_id None qs = qs \<and>
   (v \<noteq> 0 \<longrightarrow>
      order_filter_product_id (Some v) qs = filter (\<lambda>ord. v \<in> set (order_product ord)) qs) \<and>
   ((\<forall>ord \<in> set qs. 0 \<notin> set (order_product ord)) \<longrightarrow>
      filter (\<lambda>ord. 0 \<in> set (order_product ord)) qs = [])"
  by (simp add: filter_product_id_def order_filter_product_id_def method_filter_def
      filter_empty_conv)

theorem product_id_zero_is_no_constraint_witness:
  "order_filter_product_id (Some 0)
     [\<lparr>order_id = 1, order_customer = 1, order_total_amount = 5 / 2, order_order_date = 5,
        order_product = [1]\<rparr>] =
     [\<lparr>order_id = 1, order_customer = 1, order_total_amount = 5 / 2, order_order_date = 5,
        order_product = [1]\<rparr>] \<and>
   filter (\<lambda>ord. 0 \<in> set (order_product ord))
     [\<lparr>order_id = 1, order_customer = 1, order_total_amount = 5 / 2, order_order_date = 5,
        order_product = [1]\<rparr>] = [] \<and>
   order_filter_product_id (Some 2)
     [\<lparr>order_id = 1, order_customer = 1, order_total_amount = 5 / 2, order_order_date = 5,
        order_product = [1]\<rparr>,
      \<lparr>order_id = 2, order_customer = 1, order_total_amount = 4, order_order_date = 6,
        order_product = [2]\<rparr>] =
     [\<lparr>order_id = 2, order_customer = 1, order_total_amount = 4, order_order_date = 6,
        order_product = [2]\<rparr>]"
  using product_id_zero_is_no_constraint[where v = 2 and qs =
      "[\<lparr>order_id = 1, order_customer = 1, order_total_amount = 5 / 2, order_order_date = 5,
        order_product = [1]\<rparr>,
      \<lparr>order_id = 2, order_customer = 1, order_total_amount = 4, order_order_date = 6,
        order_product = [2]\<rparr>]"]
    product_id_zero_is_no_constraint[where qs =
      "[\<lparr>order_id = 1, order_customer = 1, order_total_amount = 5 / 2, order_order_date = 5,
        order_product = [1]\<rparr>]"]
  by simp

end
